theory Spec2Isabelle
  imports Complex_Main "HOL-Library.Sublist"
begin

section \<open>JavaScript numbers\<close>

text \<open>
  A JavaScript number is an IEEE 754 double. A finite double is modelled as the real it
  denotes, and an arithmetic operation of the code is the exact operation followed by the
  rounding to the nearest double, ties to even. The doubles around \<open>x\<close> are the multiples
  of \<open>ulp x\<close>, which is \<open>2\<^sup>e\<^sup>-\<^sup>5\<^sup>2\<close> for the binary exponent \<open>e\<close> of \<open>x\<close> and
  \<open>2\<^sup>-\<^sup>1\<^sup>0\<^sup>7\<^sup>4\<close> in the subnormal range. Not modelled: overflow to an infinity,
  \<^verbatim>\<open>NaN\<close> and the sign of zero; the numbers of the drag are pixel coordinates and draws of
  \<^verbatim>\<open>Math.random()\<close>, far from the overflow threshold.
\<close>

definition round_even :: "real \<Rightarrow> int" where
  "round_even q =
     (if q - of_int \<lfloor>q\<rfloor> < 1 / 2 then \<lfloor>q\<rfloor>
      else if 1 / 2 < q - of_int \<lfloor>q\<rfloor> then \<lfloor>q\<rfloor> + 1
      else if even \<lfloor>q\<rfloor> then \<lfloor>q\<rfloor> else \<lfloor>q\<rfloor> + 1)"

definition exponent :: "real \<Rightarrow> int" where
  "exponent x = (if x = 0 then - 1022 else max \<lfloor>log 2 \<bar>x\<bar>\<rfloor> (- 1022))"

definition ulp :: "real \<Rightarrow> real" where
  "ulp x = 2 powr of_int (exponent x - 52)"

definition double :: "real \<Rightarrow> real" where
  "double x = of_int (round_even (x / ulp x)) * ulp x"

definition is_double :: "real \<Rightarrow> bool" where
  "is_double x = (double x = x)"

text \<open>The operators \<^verbatim>\<open>+\<close>, \<^verbatim>\<open>-\<close>, \<^verbatim>\<open>*\<close> and \<^verbatim>\<open>/\<close> on numbers, and the constant \<^verbatim>\<open>Math.PI\<close>.\<close>

definition js_add :: "real \<Rightarrow> real \<Rightarrow> real" where
  "js_add a b = double (a + b)"

definition js_sub :: "real \<Rightarrow> real \<Rightarrow> real" where
  "js_sub a b = double (a - b)"

definition js_mul :: "real \<Rightarrow> real \<Rightarrow> real" where
  "js_mul a b = double (a * b)"

definition js_div :: "real \<Rightarrow> real \<Rightarrow> real" where
  "js_div a b = double (a / b)"

definition Math_PI :: real where
  "Math_PI = 884279719003555 / 2 ^ 48"

definition Math_floor :: "real \<Rightarrow> int" where
  "Math_floor x = \<lfloor>x\<rfloor>"

section \<open>Values, errors and effects\<close>

text \<open>
  A point is the object \<^verbatim>\<open>{x, y}\<close>, a box is what \<^verbatim>\<open>boundingBox()\<close> returns.
\<close>

type_synonym point = "real \<times> real"

record box =
  box_x :: real
  box_y :: real
  box_width :: real
  box_height :: real

text \<open>
  The parsed body of the solving service's reply, read through the three properties the
  code looks at. \<open>None\<close> is JavaScript's \<^verbatim>\<open>undefined\<close> (the property is absent); the
  offset is a number and the two codes are strings when they are present. A JSON value
  that has none of the three properties (a number, a string, an array) reads as the
  record with three \<open>None\<close>: the code treats it as it treats an object without them.
\<close>

record solution =
  sol_x :: "real option"
  sol_error :: "string option"
  sol_errorMsg :: "string option"

text \<open>The JSON body posted to the service; \<^verbatim>\<open>String(width)\<close> is kept as the number it prints.\<close>

record payload =
  b64External_or_url :: string
  b64Internal_or_url :: "string option"
  pl_question :: "string option"
  pl_width :: int
  pl_height :: int
  pl_version :: string
  pl_proxy :: string

text \<open>Every \<^verbatim>\<open>throw\<close> of the source, and the failures of the library calls it awaits.\<close>

datatype js_error =
    NoBackgroundBox
  | NoSliderBox
  | VerificationFailed
  | InvalidSolution solution
  | ParamsRequired string
  | UnsupportedType string
  | ImageFetchFailed string string
  | FetchRejected string
  | JsonParseFailed
  | NullPayload
  | ApiRequestFailed nat string
  | BodyReadFailed
  | PointerFailed

datatype effect =
    MouseMove real real nat
  | MouseDown
  | MouseUp
  | Sleep real
  | HttpGet string
  | HttpPost string payload

text \<open>
  The state the code acts on: the pointer of \<^verbatim>\<open>page.mouse\<close>, the number of pointer
  primitives issued and of \<^verbatim>\<open>Math.random()\<close> draws made so far, and the effects in
  the order they happened.
\<close>

record world =
  pointer :: point
  pressed :: bool
  mouse_calls :: nat
  draws :: nat
  effects :: "effect list"

text \<open>
  What the code cannot decide itself: the value of the \<open>k\<close>-th draw of
  \<^verbatim>\<open>Math.random()\<close>, what the engine's \<^verbatim>\<open>Math.sin\<close> and \<^verbatim>\<open>Math.pow\<close> return (the
  language leaves both implementation-approximated), whether the \<open>k\<close>-th pointer
  primitive succeeds, what the page shows and what the network answers. The page has a viewport, and its locators answer:
  with a box or with \<^verbatim>\<open>null\<close> (\<open>None\<close>), with visible or not. An image reply carries its
  \<^verbatim>\<open>ok\<close> flag, its status text and its body in base64; a service reply carries its
  \<^verbatim>\<open>ok\<close> flag, its status, its body as \<^verbatim>\<open>response.json()\<close> reads it, and what
  \<^verbatim>\<open>response.text()\<close> gives after that (\<open>None\<close> when it throws).
\<close>

datatype image_reply = ImageUnreachable | ImageReply bool string string

datatype service_body = Unparseable | JsonNull | JsonObject solution

datatype service_reply = ServiceUnreachable | ServiceReply bool nat service_body "string option"

record env =
  rnd :: "nat \<Rightarrow> real"
  math_sin :: "real \<Rightarrow> real"
  math_pow :: "real \<Rightarrow> real \<Rightarrow> real"
  mouse_ok :: "nat \<Rightarrow> bool"
  bg_box :: "box option"
  handle_box :: "box option"
  viewport_width :: int
  fail_visible :: bool
  fetch_image :: "string \<Rightarrow> image_reply"
  fetch_service :: "string \<Rightarrow> payload \<Rightarrow> service_reply"

text \<open>
  \<^verbatim>\<open>Math.sin\<close> and \<^verbatim>\<open>Math.pow\<close>. The language fixes two of their values that the drag
  meets: the sine of zero is zero, and zero to a positive power is zero.
\<close>

definition Math_sin :: "env \<Rightarrow> real \<Rightarrow> real" where
  "Math_sin env x = (if x = 0 then 0 else math_sin env x)"

definition Math_pow :: "env \<Rightarrow> real \<Rightarrow> real \<Rightarrow> real" where
  "Math_pow env b e = (if b = 0 \<and> 0 < e then 0 else math_pow env b e)"

type_synonym 'a io = "world \<Rightarrow> (js_error + 'a) \<times> world"

definition return :: "'a \<Rightarrow> 'a io" where
  "return v w = (Inr v, w)"

definition throw :: "js_error \<Rightarrow> 'a io" where
  "throw e w = (Inl e, w)"

definition bind :: "'a io \<Rightarrow> ('a \<Rightarrow> 'b io) \<Rightarrow> 'b io" where
  "bind m f w = (case m w of (Inl e, w') \<Rightarrow> (Inl e, w') | (Inr v, w') \<Rightarrow> f v w')"

definition emit :: "effect \<Rightarrow> unit io" where
  "emit e w = (Inr (), w\<lparr>effects := effects w @ [e]\<rparr>)"

definition random :: "env \<Rightarrow> real io" where
  "random env w = (Inr (rnd env (draws w)), w\<lparr>draws := Suc (draws w)\<rparr>)"

definition sleep :: "real \<Rightarrow> unit io" where
  "sleep ms = emit (Sleep ms)"

text \<open>
  The pointer primitives. One that fails throws and leaves the pointer as it was.
\<close>

definition mouse_move :: "env \<Rightarrow> real \<Rightarrow> real \<Rightarrow> nat \<Rightarrow> unit io" where
  "mouse_move env x y n w =
     (if mouse_ok env (mouse_calls w)
      then (Inr (), w\<lparr>pointer := (x, y), mouse_calls := Suc (mouse_calls w),
                      effects := effects w @ [MouseMove x y n]\<rparr>)
      else (Inl PointerFailed, w\<lparr>mouse_calls := Suc (mouse_calls w)\<rparr>))"

definition mouse_down :: "env \<Rightarrow> unit io" where
  "mouse_down env w =
     (if mouse_ok env (mouse_calls w)
      then (Inr (), w\<lparr>pressed := True, mouse_calls := Suc (mouse_calls w),
                      effects := effects w @ [MouseDown]\<rparr>)
      else (Inl PointerFailed, w\<lparr>mouse_calls := Suc (mouse_calls w)\<rparr>))"

definition mouse_up :: "env \<Rightarrow> unit io" where
  "mouse_up env w =
     (if mouse_ok env (mouse_calls w)
      then (Inr (), w\<lparr>pressed := False, mouse_calls := Suc (mouse_calls w),
                      effects := effects w @ [MouseUp]\<rparr>)
      else (Inl PointerFailed, w\<lparr>mouse_calls := Suc (mouse_calls w)\<rparr>))"

section \<open>humanLikeDrag\<close>

text \<open>
  The ease \<^verbatim>\<open>t < 0.5 ? 4 * t * t * t : 1 - Math.pow(-2 * t + 2, 3) / 2\<close>, the scale of
  the jitter \<^verbatim>\<open>Math.sin(t * Math.PI)\<close> and the number of steps
  \<^verbatim>\<open>40 + Math.floor(Math.random() * 20)\<close> for the draw \<open>r\<close>, each operation rounded
  as the engine rounds it, in the order the code evaluates them.
\<close>

definition easeT :: "env \<Rightarrow> real \<Rightarrow> real" where
  "easeT env t =
     (if t < 0.5 then js_mul (js_mul (js_mul 4 t) t) t
      else js_sub 1 (js_div (Math_pow env (js_add (js_mul (- 2) t) 2) 3) 2))"

definition noiseFactor :: "env \<Rightarrow> real \<Rightarrow> real" where
  "noiseFactor env t = Math_sin env (js_mul t Math_PI)"

definition drag_steps :: "real \<Rightarrow> nat" where
  "drag_steps r = 40 + nat (Math_floor (js_mul r 20))"

text \<open>
  The position of step \<open>i\<close>: the eased point plus the jitter made from the draws
  \<open>rx\<close> and \<open>ry\<close>.
\<close>

definition drag_position :: "env \<Rightarrow> point \<Rightarrow> point \<Rightarrow> nat \<Rightarrow> nat \<Rightarrow> real \<Rightarrow> real \<Rightarrow> point" where
  "drag_position env start end_pt steps i rx ry =
     (let distanceX = js_sub (fst end_pt) (fst start);
          distanceY = js_sub (snd end_pt) (snd start);
          t = js_div (real i) (real steps);
          currentX = js_add (fst start) (js_mul distanceX (easeT env t));
          currentY = js_add (snd start) (js_mul distanceY (easeT env t));
          randomX = js_add currentX (js_mul (js_mul (js_sub rx 0.5) 4) (noiseFactor env t));
          randomY = js_add currentY (js_mul (js_mul (js_sub ry 0.5) 4) (noiseFactor env t))
      in (randomX, randomY))"

definition drag_step :: "env \<Rightarrow> point \<Rightarrow> point \<Rightarrow> nat \<Rightarrow> nat \<Rightarrow> unit io" where
  "drag_step env start end_pt steps i =
     bind (random env) (\<lambda>rx.
     bind (random env) (\<lambda>ry.
     bind (mouse_move env (fst (drag_position env start end_pt steps i rx ry))
                          (snd (drag_position env start end_pt steps i rx ry)) 1) (\<lambda>_.
     bind (random env) (\<lambda>rs.
     sleep (js_add 5 (js_mul rs 10))))))"

function drag_loop :: "env \<Rightarrow> point \<Rightarrow> point \<Rightarrow> nat \<Rightarrow> nat \<Rightarrow> unit io" where
  "drag_loop env start end_pt steps i w =
     (if i \<le> steps
      then (case drag_step env start end_pt steps i w of
              (Inl e, w') \<Rightarrow> (Inl e, w')
            | (Inr _, w') \<Rightarrow> drag_loop env start end_pt steps (Suc i) w')
      else (Inr (), w))"
  by pat_completeness auto
termination
  by (relation "measure (\<lambda>(env, start, end_pt, steps, i, w). Suc steps - i)") auto

declare drag_loop.simps [simp del]

definition humanLikeDrag :: "env \<Rightarrow> point \<Rightarrow> point \<Rightarrow> unit io" where
  "humanLikeDrag env start end_pt =
     bind (mouse_move env (fst start) (snd start) 10) (\<lambda>_.
     bind (mouse_down env) (\<lambda>_.
     bind (random env) (\<lambda>r.
     bind (sleep (js_add 200 (js_mul r 150))) (\<lambda>_.
     bind (random env) (\<lambda>r.
     bind (drag_loop env start end_pt (drag_steps r) 0) (\<lambda>_.
     bind (random env) (\<lambda>r.
     bind (sleep (js_add 250 (js_mul r 200))) (\<lambda>_.
     mouse_up env))))))))"

text \<open>
  The effects one iteration of the loop adds when its move succeeds (\<open>d\<close> draws were made
  before it), those of \<open>n\<close> iterations from step \<open>i\<close>, and the positions a list of
  effects moves the pointer through.
\<close>

definition step_effects :: "env \<Rightarrow> point \<Rightarrow> point \<Rightarrow> nat \<Rightarrow> nat \<Rightarrow> nat \<Rightarrow> effect list" where
  "step_effects env start end_pt steps d i =
     [MouseMove (fst (drag_position env start end_pt steps i (rnd env d) (rnd env (Suc d))))
                (snd (drag_position env start end_pt steps i (rnd env d) (rnd env (Suc d)))) 1,
      Sleep (js_add 5 (js_mul (rnd env (Suc (Suc d))) 10))]"

fun loop_effects :: "env \<Rightarrow> point \<Rightarrow> point \<Rightarrow> nat \<Rightarrow> nat \<Rightarrow> nat \<Rightarrow> nat \<Rightarrow> effect list" where
  "loop_effects env start end_pt steps d i 0 = []"
| "loop_effects env start end_pt steps d i (Suc n) =
     step_effects env start end_pt steps d i @ loop_effects env start end_pt steps (d + 3) (Suc i) n"

fun moves :: "effect list \<Rightarrow> point list" where
  "moves [] = []"
| "moves (MouseMove x y n # es) = (x, y) # moves es"
| "moves (e # es) = moves es"

text \<open>The phases of \<open>humanLikeDrag\<close> before the loop and after it.\<close>

definition drag_press :: "env \<Rightarrow> point \<Rightarrow> real io" where
  "drag_press env start =
     bind (mouse_move env (fst start) (snd start) 10) (\<lambda>_.
     bind (mouse_down env) (\<lambda>_.
     bind (random env) (\<lambda>r.
     bind (sleep (js_add 200 (js_mul r 150))) (\<lambda>_.
     random env))))"

definition drag_release :: "env \<Rightarrow> unit io" where
  "drag_release env =
     bind (random env) (\<lambda>r.
     bind (sleep (js_add 250 (js_mul r 200))) (\<lambda>_.
     mouse_up env))"

section \<open>solveCaptcha\<close>

record options =
  captchaType :: string
  backgroundUrl :: "string option"
  puzzleUrl :: "string option"
  imageBase64 :: "string option"
  width :: "int option"
  height :: "int option"
  question :: "string option"

text \<open>
  JavaScript truthiness of a property that holds a string or a number: the value when it
  is truthy, \<open>None\<close> when it is \<^verbatim>\<open>undefined\<close>, the empty string or zero.
\<close>

definition truthy_string :: "string option \<Rightarrow> string option" where
  "truthy_string v = (case v of None \<Rightarrow> None | Some s \<Rightarrow> if s = [] then None else Some s)"

definition truthy_number :: "int option \<Rightarrow> int option" where
  "truthy_number v = (case v of None \<Rightarrow> None | Some n \<Rightarrow> if n = 0 then None else Some n)"

definition urlToB64 :: "env \<Rightarrow> string \<Rightarrow> string io" where
  "urlToB64 env url =
     bind (emit (HttpGet url)) (\<lambda>_.
     case fetch_image env url of
       ImageUnreachable \<Rightarrow> throw (FetchRejected url)
     | ImageReply ok statusText b64 \<Rightarrow>
         if \<not> ok then throw (ImageFetchFailed url statusText) else return b64)"

text \<open>The \<^verbatim>\<open>switch\<close> of \<open>solveCaptcha\<close>: the endpoint and the payload, or the error thrown.\<close>

definition build_request :: "env \<Rightarrow> options \<Rightarrow> (string \<times> payload) io" where
  "build_request env opts =
     (if captchaType opts = ''whirl'' then
        (case (truthy_string (backgroundUrl opts), truthy_string (puzzleUrl opts),
               truthy_number (width opts), truthy_number (height opts)) of
           (Some bg, Some pz, Some wd, Some ht) \<Rightarrow>
             bind (urlToB64 env bg) (\<lambda>outer.
             bind (urlToB64 env pz) (\<lambda>inner.
             return (''/whirl'',
               \<lparr>b64External_or_url = outer, b64Internal_or_url = Some inner, pl_question = None,
                pl_width = wd, pl_height = ht, pl_version = ''2'', pl_proxy = []\<rparr>)))
         | _ \<Rightarrow> throw (ParamsRequired ''whirl''))
      else if captchaType opts = ''puzzle'' then
        (case (truthy_string (backgroundUrl opts), truthy_string (puzzleUrl opts),
               truthy_number (width opts), truthy_number (height opts)) of
           (Some bg, Some pz, Some wd, Some ht) \<Rightarrow>
             bind (urlToB64 env bg) (\<lambda>outer.
             bind (urlToB64 env pz) (\<lambda>inner.
             return (''/slide'',
               \<lparr>b64External_or_url = outer, b64Internal_or_url = Some inner, pl_question = None,
                pl_width = wd, pl_height = ht, pl_version = ''2'', pl_proxy = []\<rparr>)))
         | _ \<Rightarrow> throw (ParamsRequired ''puzzle''))
      else if captchaType opts = ''3d'' then
        (case (truthy_string (imageBase64 opts), truthy_number (width opts),
               truthy_number (height opts)) of
           (Some img, Some wd, Some ht) \<Rightarrow>
             return (''/3d'',
               \<lparr>b64External_or_url = img, b64Internal_or_url = None, pl_question = None,
                pl_width = wd, pl_height = ht, pl_version = ''2'', pl_proxy = []\<rparr>)
         | _ \<Rightarrow> throw (ParamsRequired ''3d''))
      else if captchaType opts = ''icon'' then
        (case (truthy_string (imageBase64 opts), truthy_string (question opts),
               truthy_number (width opts), truthy_number (height opts)) of
           (Some img, Some q, Some wd, Some ht) \<Rightarrow>
             return (''/icon'',
               \<lparr>b64External_or_url = img, b64Internal_or_url = None, pl_question = Some q,
                pl_width = wd, pl_height = ht, pl_version = ''2'', pl_proxy = []\<rparr>)
         | _ \<Rightarrow> throw (ParamsRequired ''icon''))
      else throw (UnsupportedType (captchaType opts)))"

text \<open>
  The \<^verbatim>\<open>try\<close> block: the POST, the parse of the body and the check of the result. The
  \<^verbatim>\<open>catch\<close> rethrows what it caught. For a reply that is not ok and carries no
  \<^verbatim>\<open>errorMsg\<close> the message is what \<^verbatim>\<open>response.text()\<close> gives, when it gives one.
\<close>

definition post_request :: "env \<Rightarrow> string \<Rightarrow> payload \<Rightarrow> solution io" where
  "post_request env endpoint pl =
     bind (emit (HttpPost endpoint pl)) (\<lambda>_.
     case fetch_service env endpoint pl of
       ServiceUnreachable \<Rightarrow> throw (FetchRejected endpoint)
     | ServiceReply ok status body txt \<Rightarrow>
         (case body of
            Unparseable \<Rightarrow> throw JsonParseFailed
          | JsonNull \<Rightarrow> throw NullPayload
          | JsonObject result \<Rightarrow>
              if \<not> ok \<or> truthy_string (sol_errorMsg result) \<noteq> None then
                (case truthy_string (sol_errorMsg result) of
                   Some msg \<Rightarrow> throw (ApiRequestFailed status msg)
                 | None \<Rightarrow>
                     (case txt of
                        None \<Rightarrow> throw BodyReadFailed
                      | Some t \<Rightarrow> throw (ApiRequestFailed status t)))
              else return result))"

definition solveCaptcha :: "env \<Rightarrow> options \<Rightarrow> solution io" where
  "solveCaptcha env opts =
     bind (build_request env opts) (\<lambda>(endpoint, pl). post_request env endpoint pl)"

section \<open>handleSlideCaptcha\<close>

text \<open>\<^verbatim>\<open>url.includes(p)\<close>: \<open>p\<close> occurs somewhere in \<open>url\<close>.\<close>

fun js_includes :: "string \<Rightarrow> string \<Rightarrow> bool" where
  "js_includes [] p = (p = [])"
| "js_includes (c # cs) p = (prefix p (c # cs) \<or> js_includes cs p)"

text \<open>\<^verbatim>\<open>xs[i]\<close>: \<^verbatim>\<open>undefined\<close> out of range.\<close>

definition js_index :: "'a list \<Rightarrow> nat \<Rightarrow> 'a option" where
  "js_index xs i = (if i < length xs then Some (xs ! i) else None)"

definition captcha_options :: "env \<Rightarrow> string list \<Rightarrow> options" where
  "captcha_options env urls =
     \<lparr>captchaType = ''whirl'',
      backgroundUrl = js_index urls 0,
      puzzleUrl = js_index urls 1,
      imageBase64 = None,
      width = Some (if viewport_width env < 640 then 288 else 348),
      height = Some 40,
      question = None\<rparr>"

definition verify :: "env \<Rightarrow> bool io" where
  "verify env =
     bind (sleep 3000) (\<lambda>_.
     if fail_visible env then throw VerificationFailed else return True)"

text \<open>
  What the listener does once it holds two URLs and has removed itself: the body of its
  \<^verbatim>\<open>try\<close>. A returned value is what \<^verbatim>\<open>resolve\<close> gets, a thrown error is what
  \<^verbatim>\<open>reject\<close> gets.
\<close>

definition solve_attempt :: "env \<Rightarrow> string list \<Rightarrow> bool io" where
  "solve_attempt env urls =
     (case bg_box env of
        None \<Rightarrow> throw NoBackgroundBox
      | Some bgBox \<Rightarrow>
          bind (solveCaptcha env (captcha_options env urls)) (\<lambda>solution.
          if sol_error solution = Some ''0'' then
            (case sol_x solution of
               None \<Rightarrow> throw (InvalidSolution solution)
             | Some offset \<Rightarrow>
                 (case handle_box env of
                    None \<Rightarrow> throw NoSliderBox
                  | Some handleBox \<Rightarrow>
                      let startX = js_add (box_x handleBox) (js_div (box_width handleBox) 2);
                          startY = js_add (box_y handleBox) (js_div (box_height handleBox) 2);
                          targetX = js_add (box_x bgBox) offset
                      in bind (humanLikeDrag env (startX, startY) (targetX, startY)) (\<lambda>_.
                         verify env)))
          else throw (InvalidSolution solution)))"

datatype outcome = Resolved bool | Rejected js_error

text \<open>
  The promise of \<open>handleSlideCaptcha\<close> and the closure around it: the buffer of URLs,
  whether the listener is installed, whether the listener's asynchronous body is under
  way, and how the promise was settled, if it was.
\<close>

record attempt =
  captchaUrls :: "string list"
  listening :: bool
  solving :: bool
  settled :: "outcome option"
  page :: world

text \<open>
  What the event loop delivers: a network response, the 25 second timer, and the end of
  the listener's body (everything it awaits has come back).
\<close>

datatype event = Response string | Timeout | BodyEnds

text \<open>\<^verbatim>\<open>resolve\<close> and \<^verbatim>\<open>reject\<close>: the first call settles the promise, later ones do nothing.\<close>

definition settle :: "outcome \<Rightarrow> attempt \<Rightarrow> attempt" where
  "settle out a = (case settled a of None \<Rightarrow> a\<lparr>settled := Some out\<rparr> | Some _ \<Rightarrow> a)"

text \<open>The test the listener makes on a response: \<^verbatim>\<open>url.includes('https://p16')\<close>.\<close>

definition is_captcha_url :: "string \<Rightarrow> bool" where
  "is_captcha_url url = js_includes url ''https://p16''"

definition responseListener :: "string \<Rightarrow> attempt \<Rightarrow> attempt" where
  "responseListener url a =
     (if is_captcha_url url
      then (let a1 = a\<lparr>captchaUrls := captchaUrls a @ [url]\<rparr>
            in if length (captchaUrls a1) = 2
               then a1\<lparr>listening := False, solving := True\<rparr>
               else a1)
      else a)"

definition on_timeout :: "attempt \<Rightarrow> attempt" where
  "on_timeout a =
     (let a1 = a\<lparr>listening := False\<rparr>
      in if length (captchaUrls a1) < 2 then settle (Resolved False) a1 else a1)"

definition finish_body :: "env \<Rightarrow> attempt \<Rightarrow> attempt" where
  "finish_body env a =
     (case solve_attempt env (captchaUrls a) (page a) of
        (Inl err, w) \<Rightarrow> settle (Rejected err) (a\<lparr>solving := False, page := w\<rparr>)
      | (Inr v, w) \<Rightarrow> settle (Resolved v) (a\<lparr>solving := False, page := w\<rparr>))"

text \<open>How the body of the listener settles the promise.\<close>

definition body_outcome :: "(js_error + bool) \<Rightarrow> outcome" where
  "body_outcome r = (case r of Inl err \<Rightarrow> Rejected err | Inr v \<Rightarrow> Resolved v)"

fun step :: "env \<Rightarrow> attempt \<Rightarrow> event \<Rightarrow> attempt" where
  "step env a (Response url) = (if listening a then responseListener url a else a)"
| "step env a Timeout = on_timeout a"
| "step env a BodyEnds = (if solving a then finish_body env a else a)"

definition arm :: "world \<Rightarrow> attempt" where
  "arm w = \<lparr>captchaUrls = [], listening = True, solving = False, settled = None, page = w\<rparr>"

definition handleSlideCaptcha :: "env \<Rightarrow> event list \<Rightarrow> world \<Rightarrow> attempt" where
  "handleSlideCaptcha env evs w = foldl (step env) (arm w) evs"

section \<open>loginWithCredentials: the captcha stage\<close>

datatype console = ConsoleLog string | ConsoleError string js_error

text \<open>
  The \<^verbatim>\<open>try\<close>/\<^verbatim>\<open>catch\<close> around \<^verbatim>\<open>await handleSlideCaptcha(page)\<close>: what it prints. Nothing
  is thrown out of it, so the login check that follows runs whatever the outcome was.
\<close>

definition captcha_stage :: "outcome \<Rightarrow> js_error + console list" where
  "captcha_stage out =
     (case out of
        Resolved captchaSolved \<Rightarrow>
          if \<not> captchaSolved
          then Inr [ConsoleLog ''Captcha was not detected or not solved, proceeding to check for login success...'']
          else Inr []
      | Rejected err \<Rightarrow> Inr [ConsoleError ''An error occurred while handling the captcha: '' err])"

section \<open>Notions used in the statements\<close>

text \<open>
  The second world differs from the first in nothing the pointer is concerned with: same
  position and button, no pointer primitive issued, no draw made, no move among the new
  effects. A computation is quiet when it always keeps it so.
\<close>

definition pointer_kept :: "world \<Rightarrow> world \<Rightarrow> bool" where
  "pointer_kept w w1 =
     (pointer w1 = pointer w \<and> pressed w1 = pressed w \<and> mouse_calls w1 = mouse_calls w \<and>
      draws w1 = draws w \<and> moves (effects w1) = moves (effects w))"

definition quiet :: "'a io \<Rightarrow> bool" where
  "quiet m = (\<forall>w. pointer_kept w (snd (m w)))"

text \<open>What \<^verbatim>\<open>Math.random()\<close> returns: a double that is at least 0 and less than 1.\<close>

definition is_draw :: "real \<Rightarrow> bool" where
  "is_draw r = (is_double r \<and> 0 \<le> r \<and> r < 1)"

text \<open>
  The test of the specification on a response: its URL starts with the host prefix.
\<close>

definition starts_with_hostPrefix :: "string \<Rightarrow> bool" where
  "starts_with_hostPrefix url = prefix ''https://p16'' url"

text \<open>The image fetches and service posts among a list of effects.\<close>

definition network_calls :: "effect list \<Rightarrow> effect list" where
  "network_calls es = filter (\<lambda>e. case e of HttpGet _ \<Rightarrow> True | HttpPost _ _ \<Rightarrow> True | _ \<Rightarrow> False) es"

text \<open>
  The table of required fields, as the specification gives it: both images, width and
  height for whirl and puzzle; the image, width and height for 3d; these and the
  question for icon. The specification's cube3d is the code's 3d, whose image, like
  icon's, is \<open>imageBase64\<close>. A field is missing when the property is absent.
\<close>

definition required_missing :: "options \<Rightarrow> bool" where
  "required_missing opts =
     (if captchaType opts = ''whirl'' \<or> captchaType opts = ''puzzle'' then
        backgroundUrl opts = None \<or> puzzleUrl opts = None \<or> width opts = None \<or> height opts = None
      else if captchaType opts = ''3d'' then
        imageBase64 opts = None \<or> width opts = None \<or> height opts = None
      else if captchaType opts = ''icon'' then
        imageBase64 opts = None \<or> width opts = None \<or> height opts = None \<or> question opts = None
      else False)"

text \<open>
  What keeps \<open>solveCaptcha\<close> from building its request, told from its arguments and the
  network alone: the kind is none of the four the \<^verbatim>\<open>switch\<close> knows; a field the kind
  requires is unusable, which is absent, the empty string or zero; or, for the two kinds
  that take image URLs, one of the two images cannot be fetched (the network fails or the
  reply is not ok).
\<close>

definition kind_supported :: "options \<Rightarrow> bool" where
  "kind_supported opts = (captchaType opts \<in> {''whirl'', ''puzzle'', ''3d'', ''icon''})"

definition field_unusable :: "options \<Rightarrow> bool" where
  "field_unusable opts =
     (if captchaType opts = ''whirl'' \<or> captchaType opts = ''puzzle'' then
        truthy_string (backgroundUrl opts) = None \<or> truthy_string (puzzleUrl opts) = None \<or>
        truthy_number (width opts) = None \<or> truthy_number (height opts) = None
      else if captchaType opts = ''3d'' then
        truthy_string (imageBase64 opts) = None \<or>
        truthy_number (width opts) = None \<or> truthy_number (height opts) = None
      else if captchaType opts = ''icon'' then
        truthy_string (imageBase64 opts) = None \<or> truthy_string (question opts) = None \<or>
        truthy_number (width opts) = None \<or> truthy_number (height opts) = None
      else False)"

definition fetch_fails :: "env \<Rightarrow> string \<Rightarrow> bool" where
  "fetch_fails env url =
     (case fetch_image env url of ImageUnreachable \<Rightarrow> True | ImageReply ok statusText b64 \<Rightarrow> \<not> ok)"

definition image_unfetchable :: "env \<Rightarrow> options \<Rightarrow> bool" where
  "image_unfetchable env opts =
     ((captchaType opts = ''whirl'' \<or> captchaType opts = ''puzzle'') \<and>
      (case (truthy_string (backgroundUrl opts), truthy_string (puzzleUrl opts)) of
         (Some bg, Some pz) \<Rightarrow> fetch_fails env bg \<or> fetch_fails env pz
       | _ \<Rightarrow> False))"

text \<open>
  The three conditions under which the specification lets the solver client throw: the
  service is unreachable, its status is not 2xx, or its payload carries an error message.
  The second predicate holds of the replies whose body is not a JSON value with
  properties: text that does not parse, or \<^verbatim>\<open>null\<close>.
\<close>

definition claimed_throw_condition :: "service_reply \<Rightarrow> bool" where
  "claimed_throw_condition reply =
     (case reply of
        ServiceUnreachable \<Rightarrow> True
      | ServiceReply ok status body txt \<Rightarrow>
          \<not> ok \<or> (case body of JsonObject result \<Rightarrow> truthy_string (sol_errorMsg result) \<noteq> None
                             | _ \<Rightarrow> False))"

definition body_not_object :: "service_reply \<Rightarrow> bool" where
  "body_not_object reply =
     (case reply of
        ServiceUnreachable \<Rightarrow> False
      | ServiceReply ok status body txt \<Rightarrow>
          (case body of JsonObject result \<Rightarrow> False | _ \<Rightarrow> True))"

text \<open>The payload \<open>solveCaptcha\<close> posts for a whirl request made by the listener.\<close>

definition whirl_payload :: "env \<Rightarrow> string \<Rightarrow> string \<Rightarrow> payload" where
  "whirl_payload env outer inner =
     \<lparr>b64External_or_url = outer, b64Internal_or_url = Some inner, pl_question = None,
      pl_width = (if viewport_width env < 640 then 288 else 348), pl_height = 40,
      pl_version = ''2'', pl_proxy = []\<rparr>"

text \<open>The URLs of the responses among the events, in arrival order.\<close>

fun responses_of :: "event list \<Rightarrow> string list" where
  "responses_of [] = []"
| "responses_of (Response url # evs) = url # responses_of evs"
| "responses_of (e # evs) = responses_of evs"

section \<open>Sample runs\<close>

text \<open>
  A page on which nothing fails, with the background image at (300, 650), the handle at
  (500, 700) and 40 wide and high, and a service that answers with the offset 142 and the
  error code 0 (as a string). Every draw is 0.25. The engine rounds the sine and the
  power correctly; at \<^verbatim>\<open>Math.PI\<close> its sine is the double
  \<open>4967757600021511 / 2\<^sup>1\<^sup>0\<^sup>5\<close>, which prints as \<^verbatim>\<open>1.2246467991473532e-16\<close>.
\<close>

definition sample_world :: world where
  "sample_world = \<lparr>pointer = (0, 0), pressed = False, mouse_calls = 0, draws = 0, effects = []\<rparr>"

definition sample_env :: env where
  "sample_env =
     \<lparr>rnd = (\<lambda>k. 1 / 4),
      math_sin = (\<lambda>x. if x = Math_PI then 4967757600021511 / 2 ^ 105 else double (sin x)),
      math_pow = (\<lambda>b e. double (b powr e)),
      mouse_ok = (\<lambda>k. True),
      bg_box = Some \<lparr>box_x = 300, box_y = 650, box_width = 348, box_height = 217\<rparr>,
      handle_box = Some \<lparr>box_x = 500, box_y = 700, box_width = 40, box_height = 40\<rparr>,
      viewport_width = 1280,
      fail_visible = False,
      fetch_image = (\<lambda>url. ImageReply True ''OK'' ''aW1hZ2U=''),
      fetch_service = (\<lambda>endpoint pl. ServiceReply True 200
         (JsonObject \<lparr>sol_x = Some 142, sol_error = Some ''0'', sol_errorMsg = None\<rparr>) None)\<rparr>"

text \<open>The same page with a pointer driver that fails from its third primitive on.\<close>

definition failing_env :: env where
  "failing_env = sample_env\<lparr>mouse_ok := (\<lambda>k. k < 2)\<rparr>"

text \<open>
  The same page with every draw the double \<open>2026619832316723 / 2\<^sup>5\<^sup>2\<close>, which prints as
  \<^verbatim>\<open>0.44999999999999996\<close>: twenty times it is less than 9, and rounds to 9.
\<close>

definition rounding_env :: env where
  "rounding_env = sample_env\<lparr>rnd := (\<lambda>k. 2026619832316723 / 2 ^ 52)\<rparr>"

text \<open>
  The same page with a service that answers 200 with a body that is not JSON, with an
  image host that answers 404, and with a service that answers 200 with an error code
  other than 0 and no offset.
\<close>

definition garbled_env :: env where
  "garbled_env = sample_env\<lparr>fetch_service := (\<lambda>endpoint pl. ServiceReply True 200 Unparseable None)\<rparr>"

definition missing_image_env :: env where
  "missing_image_env = sample_env\<lparr>fetch_image := (\<lambda>url. ImageReply False ''Not Found'' [])\<rparr>"

definition unsolved_env :: env where
  "unsolved_env = sample_env\<lparr>fetch_service := (\<lambda>endpoint pl. ServiceReply True 200
     (JsonObject \<lparr>sol_x = None, sol_error = Some ''1'', sol_errorMsg = None\<rparr>) None)\<rparr>"

text \<open>
  Two captcha image URLs, and a sequence of responses in which they come second and third
  of four.
\<close>

definition sample_urls :: "string list" where
  "sample_urls = [''https://p16-a.example/bg.png'', ''https://p16-a.example/piece.png'']"

definition sample_traffic :: "string list" where
  "sample_traffic =
     [''https://www.example/app.js'', ''https://p16-a.example/bg.png'',
      ''https://p16-a.example/piece.png'', ''https://p16-a.example/third.png'']"

text \<open>
  Responses among which one URL carries the host string in its query and starts with
  another host.
\<close>

definition embedded_url :: string where
  "embedded_url = ''https://evil.example/?u=https://p16''"

definition embedded_first_traffic :: "string list" where
  "embedded_first_traffic =
     [embedded_url, ''https://p16-a.example/bg.png'', ''https://p16-a.example/piece.png'']"

definition embedded_second_traffic :: "string list" where
  "embedded_second_traffic = [''https://p16-a.example/bg.png'', embedded_url]"

text \<open>The call the repository's 3d script makes: the kind and the image, nothing else.\<close>

definition solve_3d_options :: "string \<Rightarrow> options" where
  "solve_3d_options base64Image =
     \<lparr>captchaType = ''3d'', backgroundUrl = None, puzzleUrl = None, imageBase64 = Some base64Image,
      width = None, height = None, question = None\<rparr>"


section \<open>Properties of the rounding\<close>

lemma round_even_of_int [simp]: "round_even (of_int n) = n"
  by (simp add: round_even_def)

lemma round_even_0 [simp]: "round_even 0 = 0"
  by (simp add: round_even_def)

lemma round_even_error: "\<bar>of_int (round_even q) - q\<bar> \<le> 1 / 2"
  unfolding round_even_def by (auto simp: abs_if) linarith+

lemma round_even_nonneg: "0 \<le> q \<Longrightarrow> 0 \<le> round_even q"
  unfolding round_even_def by auto


lemma ulp_pos: "0 < ulp x"
  by (simp add: ulp_def)

lemma double_0 [simp]: "double 0 = 0"
  by (simp add: double_def)

lemma double_error: "\<bar>double x - x\<bar> \<le> ulp x / 2"
proof -
  have "double x - x = (of_int (round_even (x / ulp x)) - x / ulp x) * ulp x"
    using ulp_pos [of x] by (simp add: double_def algebra_simps)
  then have "\<bar>double x - x\<bar> = \<bar>of_int (round_even (x / ulp x)) - x / ulp x\<bar> * ulp x"
    using ulp_pos [of x] by (simp add: abs_mult)
  also have "\<dots> \<le> 1 / 2 * ulp x"
    using round_even_error [of "x / ulp x"] ulp_pos [of x] by (intro mult_right_mono) simp_all
  finally show ?thesis by simp
qed

lemma double_nonneg: "0 \<le> x \<Longrightarrow> 0 \<le> double x"
  using ulp_pos [of x] by (simp add: double_def round_even_nonneg)


lemma ulp_powr: "ulp x = 2 powr of_int (exponent x - 52)"
  by (simp add: ulp_def)

lemma exponent_ge: "- 1022 \<le> exponent x"
  by (simp add: exponent_def)

lemma exponent_le:
  assumes "x \<noteq> 0" "\<bar>x\<bar> < 2 powr of_int (e + 1)" "- 1022 \<le> e"
  shows "exponent x \<le> e"
proof -
  have "log 2 \<bar>x\<bar> < of_int (e + 1)"
    using assms(1,2) by (simp add: log_less_iff)
  then have "\<lfloor>log 2 \<bar>x\<bar>\<rfloor> < e + 1" by (rule floor_less_iff [THEN iffD2])
  with assms show ?thesis by (simp add: exponent_def)
qed

lemma exponent_eq:
  assumes "2 powr of_int e \<le> \<bar>x\<bar>" "\<bar>x\<bar> < 2 powr of_int (e + 1)" "- 1022 \<le> e"
  shows "exponent x = e"
proof -
  have "0 < \<bar>x\<bar>" using assms(1) by (smt (verit) powr_gt_zero)
  then have "\<lfloor>log 2 \<bar>x\<bar>\<rfloor> = e"
    using assms(1,2) by (simp add: floor_log_eq_powr_iff)
  with assms(3) \<open>0 < \<bar>x\<bar>\<close> show ?thesis by (simp add: exponent_def)
qed


lemma exponent_subnormal:
  assumes "\<bar>x\<bar> < 2 powr (- 1022)"
  shows "exponent x = - 1022"
proof (cases "x = 0")
  case True
  then show ?thesis by (simp add: exponent_def)
next
  case False
  have "(2::real) powr (- 1022) \<le> 2 powr of_int (- 1022 + 1)" by (rule powr_mono) simp_all
  with assms have "\<bar>x\<bar> < 2 powr of_int (- 1022 + 1)" by (rule less_le_trans)
  with False have "exponent x \<le> - 1022" by (rule exponent_le) simp
  with exponent_ge [of x] show ?thesis by simp
qed

lemma double_dyadic:
  assumes "\<bar>n\<bar> < 2 ^ 53" "- 1074 \<le> k"
  shows "double (of_int n * 2 powr of_int k) = of_int n * 2 powr of_int k"
proof (cases "n = 0")
  case True
  then show ?thesis by simp
next
  case False
  define x :: real where "x = of_int n * 2 powr of_int k"
  have x0: "x \<noteq> 0" using False by (simp add: x_def)
  have n53: "of_int \<bar>n\<bar> < (2::real) ^ 53" using assms(1) by simp
  have "\<bar>x\<bar> = of_int \<bar>n\<bar> * 2 powr of_int k" by (simp add: x_def abs_mult)
  also have "\<dots> < 2 ^ 53 * 2 powr of_int k"
    using n53 by (rule mult_strict_right_mono) simp
  also have "\<dots> = 2 powr of_int (k + 52 + 1)"
  proof -
    have "(2::real) powr of_int (k + 52 + 1) = 2 powr (of_int k + 53)" by (simp add: add.commute)
    also have "\<dots> = 2 powr of_int k * 2 powr 53" by (rule powr_add)
    finally show ?thesis by simp
  qed
  finally have "\<bar>x\<bar> < 2 powr of_int (k + 52 + 1)" .
  with x0 have "exponent x \<le> k + 52"
    by (rule exponent_le) (use assms(2) in simp)
  define j where "j = nat (k - (exponent x - 52))"
  have j: "k = exponent x - 52 + int j"
    using \<open>exponent x \<le> k + 52\<close> by (simp add: j_def)
  have "(2::real) powr of_int k = 2 powr (of_int (exponent x - 52) + real j)"
    by (subst j) simp
  also have "\<dots> = 2 powr of_int (exponent x - 52) * 2 powr real j" by (rule powr_add)
  also have "\<dots> = ulp x * 2 ^ j" by (simp add: ulp_def powr_realpow)
  finally have u: "2 powr of_int k = 2 ^ j * ulp x" by simp
  have xu: "x = of_int (n * 2 ^ j) * ulp x"
    by (subst x_def) (simp add: u)
  then have "x / ulp x = of_int (n * 2 ^ j) * ulp x / ulp x"
    by (rule arg_cong [where f = "\<lambda>t. t / ulp x"])
  then have "x / ulp x = of_int (n * 2 ^ j)"
    using ulp_pos [of x] by simp
  then have "double x = of_int (n * 2 ^ j) * ulp x"
    by (simp only: double_def round_even_of_int)
  with xu have "double x = x" by simp
  then show ?thesis by (simp only: x_def)
qed

lemma double_div_pow2:
  assumes "\<bar>n\<bar> < 2 ^ 53" "m \<le> 1074"
  shows "double (of_int n / 2 ^ m) = of_int n / 2 ^ m"
proof -
  have "(2::real) powr of_int (- int m) = 1 / 2 ^ m"
    by (simp add: powr_minus_divide powr_realpow)
  then show ?thesis
    using double_dyadic [of n "- int m"] assms by simp
qed

lemma double_mult_pow2:
  assumes "\<bar>n\<bar> < 2 ^ 53"
  shows "double (of_int n * 2 ^ m) = of_int n * 2 ^ m"
proof -
  have "(2::real) powr of_int (int m) = 2 ^ m"
    by (simp add: powr_realpow)
  then show ?thesis
    using double_dyadic [of n "int m"] assms by simp
qed

lemma double_of_int:
  assumes "\<bar>n\<bar> < 2 ^ 53"
  shows "double (of_int n) = of_int n"
  using double_mult_pow2 [OF assms, of 0] by simp

lemma double_small_numerals [simp]:
  "double 1 = 1" "double 2 = 2" "double (- 2) = - 2" "double 4 = 4" "double 5 = 5"
  "double (- 1) = - 1" "double (1 / 2) = 1 / 2" "double (1 / 4) = 1 / 4" "double (- (1 / 4)) = - (1 / 4)"
  using double_of_int [of 1] double_of_int [of 2] double_of_int [of "- 2"] double_of_int [of 4]
    double_of_int [of 5] double_of_int [of "- 1"] double_div_pow2 [of 1 1] double_div_pow2 [of 1 2]
    double_div_pow2 [of "- 1" 2]
  by simp_all





lemma exponent_upper:
  assumes "x \<noteq> 0"
  shows "\<bar>x\<bar> < 2 powr of_int (exponent x + 1)"
proof (cases "2 powr (- 1022) \<le> \<bar>x\<bar>")
  case True
  have p: "0 < \<bar>x\<bar>" using assms by simp
  have "(- 1022 :: real) \<le> log 2 \<bar>x\<bar>"
    using True p by (simp add: le_log_iff)
  then have "- 1022 \<le> \<lfloor>log 2 \<bar>x\<bar>\<rfloor>" by (simp add: le_floor_iff)
  then have e: "exponent x = \<lfloor>log 2 \<bar>x\<bar>\<rfloor>" using assms by (simp add: exponent_def)
  have "log 2 \<bar>x\<bar> < of_int (\<lfloor>log 2 \<bar>x\<bar>\<rfloor> + 1)" by simp
  then have "\<bar>x\<bar> < 2 powr of_int (\<lfloor>log 2 \<bar>x\<bar>\<rfloor> + 1)"
    using p by (simp only: log_less_iff [OF _ p, symmetric]) 
  then show ?thesis by (simp only: e)
next
  case False
  then have s: "\<bar>x\<bar> < 2 powr (- 1022)" by (rule not_le_imp_less)
  have "(2::real) powr (- 1022) \<le> 2 powr of_int (- 1022 + 1)" by (rule powr_mono) simp_all
  with s have "\<bar>x\<bar> < 2 powr of_int (- 1022 + 1)" by (rule less_le_trans)
  then show ?thesis by (simp only: exponent_subnormal [OF s])
qed

lemma double_is_double: "is_double (double x)"
proof (cases "x = 0")
  case True
  then show ?thesis by (simp add: is_double_def)
next
  case False
  define e where "e = exponent x"
  define N where "N = round_even (x / ulp x)"
  have d: "double x = of_int N * 2 powr of_int (e - 52)"
    by (simp add: double_def N_def e_def ulp_def)
  have "(2::real) powr of_int (e + 1) = 2 powr (of_int (e - 52) + 53)" by (rule arg_cong [where f = "\<lambda>t. 2 powr t"]) simp
  also have "\<dots> = 2 powr of_int (e - 52) * 2 powr 53" by (rule powr_add)
  also have "\<dots> = ulp x * 2 ^ 53" by (simp add: ulp_def e_def)
  finally have u: "2 powr of_int (e + 1) = ulp x * 2 ^ 53" .
  have u2: "(2::real) ^ 53 * 2 powr of_int (e - 52) = 2 powr of_int (e + 1)"
    unfolding u unfolding ulp_def e_def by (rule mult.commute)
  have "\<bar>x\<bar> < ulp x * 2 ^ 53"
    using exponent_upper [OF False] u by (simp only: e_def)
  then have q: "\<bar>x / ulp x\<bar> < 2 ^ 53"
    using ulp_pos [of x] by (simp add: field_simps abs_mult)
  have "\<bar>of_int N - x / ulp x\<bar> \<le> 1 / 2"
    unfolding N_def by (rule round_even_error)
  with q have "\<bar>real_of_int N\<bar> < 2 ^ 53 + 1" by linarith
  then have "\<bar>N\<bar> < 2 ^ 53 + 1"
    by (metis (mono_tags, opaque_lifting) of_int_abs of_int_less_iff of_int_numeral of_int_power of_int_add of_int_1)
  then have n: "\<bar>N\<bar> \<le> 2 ^ 53" by simp
  have ek: "- 1074 \<le> e - 52" using exponent_ge [of x] by (simp add: e_def)
  show ?thesis
  proof (cases "\<bar>N\<bar> < 2 ^ 53")
    case True
    from double_dyadic [OF True ek] show ?thesis
      by (simp only: is_double_def d)
  next
    case False
    with n have "\<bar>N\<bar> = 2 ^ 53" by simp
    then consider "N = 2 ^ 53" | "N = - (2 ^ 53)" by (auto simp: abs_if split: if_splits)
    then show ?thesis
    proof cases
      case 1
      then have "double x = 2 ^ 53 * 2 powr of_int (e - 52)" by (simp add: d)
      also have "\<dots> = of_int 1 * 2 powr of_int (e + 1)" by (simp only: u2 of_int_1 mult_1)
      finally have "double x = of_int 1 * 2 powr of_int (e + 1)" .
      moreover have "double (of_int 1 * 2 powr of_int (e + 1)) = of_int 1 * 2 powr of_int (e + 1)"
        using ek by (intro double_dyadic) simp_all
      ultimately show ?thesis by (simp only: is_double_def)
    next
      case 2
      then have "double x = - (2 ^ 53) * 2 powr of_int (e - 52)" by (simp add: d)
      also have "\<dots> = - (2 ^ 53 * 2 powr of_int (e - 52))" by (rule mult_minus_left)
      also have "\<dots> = of_int (- 1) * 2 powr of_int (e + 1)" by (simp only: u2 of_int_minus of_int_1 mult_minus_left mult_1)
      finally have "double x = of_int (- 1) * 2 powr of_int (e + 1)" .
      moreover have "double (of_int (- 1) * 2 powr of_int (e + 1)) = of_int (- 1) * 2 powr of_int (e + 1)"
        using ek by (intro double_dyadic) simp_all
      ultimately show ?thesis by (simp only: is_double_def)
    qed
  qed
qed

lemma double_idem [simp]: "double (double x) = double x"
  using double_is_double [of x] by (simp add: is_double_def)

lemma double_below_one:
  assumes "is_double r" "0 \<le> r" "r < 1"
  shows "r \<le> 1 - 1 / 2 ^ 53"
proof (cases "r < 1 / 2")
  case True
  then show ?thesis by simp
next
  case False
  then have h: "1 / 2 \<le> r" by simp
  have "(2::real) powr of_int (- 1) = 1 / 2" by (simp add: powr_minus_divide)
  then have lo: "2 powr of_int (- 1) \<le> \<bar>r\<bar>" using h by simp
  have hi: "\<bar>r\<bar> < 2 powr of_int (- 1 + 1)" using assms by simp
  have e: "exponent r = - 1" using lo hi by (rule exponent_eq) simp
  have "ulp r = 2 powr of_int (- 53)" by (simp add: ulp_def e)
  also have "\<dots> = 1 / 2 ^ 53" by (simp add: powr_minus_divide)
  finally have u: "ulp r = 1 / 2 ^ 53" .
  define N where "N = round_even (r / ulp r)"
  have "double r = of_int N * ulp r" by (simp only: double_def N_def)
  then have "r = of_int N * ulp r" using assms(1) by (simp only: is_double_def)
  then have r: "r = of_int N / 2 ^ 53" by (simp only: u times_divide_eq_right mult_1_right)
  then have "real_of_int N < 2 ^ 53" using assms(3) by simp
  then have "N < 2 ^ 53"
    by (metis (mono_tags, opaque_lifting) of_int_less_iff of_int_numeral of_int_power)
  then have "N \<le> 2 ^ 53 - 1" by simp
  then have "real_of_int N \<le> 2 ^ 53 - 1"
    by (metis (mono_tags, opaque_lifting) of_int_le_iff of_int_numeral of_int_power of_int_diff of_int_1)
  then show ?thesis by (subst r) (simp add: field_simps)
qed

lemma ulp_le:
  assumes "x \<noteq> 0" "\<bar>x\<bar> < 2 powr of_int (e + 1)" "- 1022 \<le> e"
  shows "ulp x \<le> 2 powr of_int (e - 52)"
proof -
  have "exponent x \<le> e" using assms by (rule exponent_le)
  then show ?thesis unfolding ulp_def by (intro powr_mono) simp_all
qed

lemma double_scaled_draw:
  assumes "is_double r" "0 \<le> r" "r < 1"
  shows "0 \<le> double (r * 20) \<and> double (r * 20) < 20"
proof (cases "r = 0")
  case True
  then show ?thesis by simp
next
  case False
  have b: "r \<le> 1 - 1 / 2 ^ 53" using assms by (rule double_below_one)
  have x0: "r * 20 \<noteq> 0" using False by simp
  have "(2::real) powr of_int (4 + 1) = 32" by simp
  then have "\<bar>r * 20\<bar> < 2 powr of_int (4 + 1)" using assms by simp
  with x0 have "ulp (r * 20) \<le> 2 powr of_int (4 - 52)" by (rule ulp_le) simp
  also have "\<dots> = 1 / 2 ^ 48" by (simp add: powr_minus_divide)
  finally have u: "ulp (r * 20) \<le> 1 / 2 ^ 48" .
  have "\<bar>double (r * 20) - r * 20\<bar> \<le> ulp (r * 20) / 2" by (rule double_error)
  then have "double (r * 20) \<le> r * 20 + ulp (r * 20) / 2" by linarith
  also have "\<dots> \<le> (1 - 1 / 2 ^ 53) * 20 + (1 / 2 ^ 48) / 2" using u b by (intro add_mono) simp_all
  also have "\<dots> < 20" by simp
  finally have "double (r * 20) < 20" .
  moreover have "0 \<le> double (r * 20)" using assms by (intro double_nonneg) simp
  ultimately show ?thesis by simp
qed

lemma double_eval:
  assumes "2 powr of_int e \<le> \<bar>x\<bar>" "\<bar>x\<bar> < 2 powr of_int (e + 1)" "- 1022 \<le> e"
  shows "double x = of_int (round_even (x / 2 powr of_int (e - 52))) * 2 powr of_int (e - 52)"
  using exponent_eq [OF assms] by (simp add: double_def ulp_def)

lemma round_even_near:
  assumes "\<bar>q - of_int n\<bar> < 1 / 2"
  shows "round_even q = n"
proof -
  have "\<bar>of_int (round_even q) - q\<bar> \<le> 1 / 2" by (rule round_even_error)
  with assms have "\<bar>real_of_int (round_even q) - of_int n\<bar> < 1" by linarith
  then have "\<bar>real_of_int (round_even q - n)\<bar> < 1" by simp
  then have "\<bar>round_even q - n\<bar> < 1" by linarith
  then show ?thesis by simp
qed

lemma double_near:
  assumes "2 powr of_int e \<le> \<bar>x\<bar>" "\<bar>x\<bar> < 2 powr of_int (e + 1)" "- 1022 \<le> e"
    and "\<bar>x / 2 powr of_int (e - 52) - of_int n\<bar> < 1 / 2"
  shows "double x = of_int n * 2 powr of_int (e - 52)"
  by (simp only: double_eval [OF assms(1-3)] round_even_near [OF assms(4)])





section \<open>Properties of the drag\<close>

lemma js_zero [simp]:
  "js_mul a 0 = 0" "js_mul 0 a = 0" "js_div 0 a = 0"
  "js_add a 0 = double a" "js_add 0 a = double a" "js_sub a 0 = double a"
  by (simp_all add: js_mul_def js_div_def js_add_def js_sub_def)

lemma js_double [simp]:
  "double (js_add a b) = js_add a b" "double (js_sub a b) = js_sub a b"
  "double (js_mul a b) = js_mul a b" "double (js_div a b) = js_div a b"
  by (simp_all add: js_mul_def js_div_def js_add_def js_sub_def)

lemma js_mul_1 [simp]: "js_mul a 1 = double a" "js_mul 1 a = double a"
  by (simp_all add: js_mul_def)

lemma js_div_self: "0 < n \<Longrightarrow> js_div (real n) (real n) = 1"
  by (simp add: js_div_def)

lemma double_Math_PI [simp]: "double Math_PI = Math_PI"
  unfolding Math_PI_def using double_div_pow2 [of 884279719003555 48] by simp

lemma Math_PI_bounds: "3 < Math_PI" "Math_PI < 4"
  by (simp_all add: Math_PI_def)

lemma Math_sin_0 [simp]: "Math_sin env 0 = 0"
  by (simp add: Math_sin_def)


lemma easeT_1: "easeT env 1 = 1"
  by (simp add: easeT_def Math_pow_def js_add_def js_sub_def)


lemma noiseFactor_1: "noiseFactor env 1 = Math_sin env Math_PI"
  by (simp add: noiseFactor_def)


lemma drag_position_last:
  "0 < steps \<Longrightarrow>
   drag_position env start end_pt steps steps rx ry =
     (js_add (js_add (fst start) (js_sub (fst end_pt) (fst start)))
             (js_mul (js_mul (js_sub rx (1 / 2)) 4) (Math_sin env Math_PI)),
      js_add (js_add (snd start) (js_sub (snd end_pt) (snd start)))
             (js_mul (js_mul (js_sub ry (1 / 2)) 4) (Math_sin env Math_PI)))"
  by (simp add: drag_position_def js_div_self easeT_1 noiseFactor_1)



lemma drag_step_ok:
  assumes "mouse_ok env (mouse_calls w)"
  shows "drag_step env start end_pt steps i w =
     (Inr (), w\<lparr>pointer := drag_position env start end_pt steps i (rnd env (draws w)) (rnd env (Suc (draws w))),
               mouse_calls := Suc (mouse_calls w),
               draws := draws w + 3,
               effects := effects w @ step_effects env start end_pt steps (draws w) i\<rparr>)"
  using assms
  by (simp add: drag_step_def bind_def random_def mouse_move_def sleep_def emit_def step_effects_def)

lemma drag_step_fail:
  assumes "\<not> mouse_ok env (mouse_calls w)"
  shows "drag_step env start end_pt steps i w =
     (Inl PointerFailed, w\<lparr>mouse_calls := Suc (mouse_calls w), draws := draws w + 2\<rparr>)"
  using assms
  by (simp add: drag_step_def bind_def random_def mouse_move_def sleep_def emit_def)

lemma drag_loop_ok:
  "\<forall>k<n. mouse_ok env (mouse_calls w + k) \<Longrightarrow> Suc steps = i + n \<Longrightarrow>
   \<exists>w'. drag_loop env start end_pt steps i w = (Inr (), w') \<and>
        pressed w' = pressed w \<and>
        draws w' = draws w + 3 * n \<and>
        mouse_calls w' = mouse_calls w + n \<and>
        effects w' = effects w @ loop_effects env start end_pt steps (draws w) i n \<and>
        (0 < n \<longrightarrow> pointer w' = drag_position env start end_pt steps steps
                                    (rnd env (draws w' - 3)) (rnd env (draws w' - 2))) \<and>
        (n = 0 \<longrightarrow> pointer w' = pointer w)"
proof (induction n arbitrary: i w)
  case 0
  then have "\<not> i \<le> steps" by simp
  then show ?case by (subst drag_loop.simps) simp
next
  case (Suc n)
  then have le: "i \<le> steps" by simp
  have ok: "mouse_ok env (mouse_calls w)" using Suc.prems(1) by force
  define w1 where "w1 = snd (drag_step env start end_pt steps i w)"
  have st: "drag_step env start end_pt steps i w = (Inr (), w1)"
    unfolding w1_def by (simp add: drag_step_ok [OF ok])
  have w1: "pressed w1 = pressed w" "draws w1 = draws w + 3" "mouse_calls w1 = Suc (mouse_calls w)"
    "effects w1 = effects w @ step_effects env start end_pt steps (draws w) i"
    "pointer w1 = drag_position env start end_pt steps i (rnd env (draws w)) (rnd env (Suc (draws w)))"
    unfolding w1_def by (simp_all add: drag_step_ok [OF ok])
  have ok1: "\<forall>k<n. mouse_ok env (mouse_calls w1 + k)"
  proof (intro allI impI)
    fix k assume "k < n"
    then have "Suc k < Suc n" by simp
    with Suc.prems(1) have "mouse_ok env (mouse_calls w + Suc k)" by blast
    then show "mouse_ok env (mouse_calls w1 + k)" by (simp add: w1(3))
  qed
  from Suc.prems have "Suc steps = Suc i + n" by simp
  from Suc.IH [OF ok1 this]
  obtain w' where w': "drag_loop env start end_pt steps (Suc i) w1 = (Inr (), w')"
    "pressed w' = pressed w1" "draws w' = draws w1 + 3 * n" "mouse_calls w' = mouse_calls w1 + n"
    "effects w' = effects w1 @ loop_effects env start end_pt steps (draws w1) (Suc i) n"
    "0 < n \<longrightarrow> pointer w' = drag_position env start end_pt steps steps
                                    (rnd env (draws w' - 3)) (rnd env (draws w' - 2))"
    "n = 0 \<longrightarrow> pointer w' = pointer w1"
    by blast
  have unf: "drag_loop env start end_pt steps i w = (Inr (), w')"
    using le by (subst drag_loop.simps) (simp add: st w'(1))
  have ptr: "pointer w' = drag_position env start end_pt steps steps
                                    (rnd env (draws w' - 3)) (rnd env (draws w' - 2))"
  proof (cases "n = 0")
    case True
    with Suc.prems have "i = steps" by simp
    with True w'(3,7) w1(2,5) show ?thesis by simp
  next
    case False
    with w'(6) show ?thesis by simp
  qed
  show ?case
    using unf w'(2-5) w1(1-4) ptr by simp
qed

lemma drag_loop_fails:
  "\<not> (\<forall>k<n. mouse_ok env (mouse_calls w + k)) \<Longrightarrow> Suc steps = i + n \<Longrightarrow>
   fst (drag_loop env start end_pt steps i w) = Inl PointerFailed"
proof (induction n arbitrary: i w)
  case 0
  then show ?case by simp
next
  case (Suc n)
  then have le: "i \<le> steps" by simp
  show ?case
  proof (cases "mouse_ok env (mouse_calls w)")
    case False
    then show ?thesis using le by (subst drag_loop.simps) (simp add: drag_step_fail)
  next
    case True
    define w1 where "w1 = snd (drag_step env start end_pt steps i w)"
    have st: "drag_step env start end_pt steps i w = (Inr (), w1)"
      unfolding w1_def by (simp add: drag_step_ok [OF True])
    have m: "mouse_calls w1 = Suc (mouse_calls w)"
      unfolding w1_def by (simp add: drag_step_ok [OF True])
    from Suc.prems(1) obtain k where k: "k < Suc n" "\<not> mouse_ok env (mouse_calls w + k)" by blast
    with True have "k \<noteq> 0" by (metis add.right_neutral)
    then obtain j where j: "k = Suc j" by (cases k) simp_all
    with k have "j < n" "\<not> mouse_ok env (mouse_calls w1 + j)" by (simp_all add: m)
    then have bad: "\<not> (\<forall>k<n. mouse_ok env (mouse_calls w1 + k))" by blast
    from Suc.prems have "Suc steps = Suc i + n" by simp
    from Suc.IH [OF bad this]
    have "fst (drag_loop env start end_pt steps (Suc i) w1) = Inl PointerFailed" .
    then show ?thesis using le by (subst drag_loop.simps) (simp add: st)
  qed
qed

lemma moves_append: "moves (xs @ ys) = moves xs @ moves ys"
  by (induction xs rule: moves.induct) simp_all


lemma drag_steps_range:
  assumes "is_draw r"
  shows "40 \<le> drag_steps r \<and> drag_steps r \<le> 59"
proof -
  have "0 \<le> double (r * 20) \<and> double (r * 20) < 20"
    using assms by (intro double_scaled_draw) (simp_all add: is_draw_def)
  then have "\<lfloor>double (r * 20)\<rfloor> < 20" by (simp add: floor_less_iff)
  then have "nat \<lfloor>double (r * 20)\<rfloor> \<le> 19" by linarith
  then show ?thesis by (simp add: drag_steps_def Math_floor_def js_mul_def)
qed

lemma moves_loop_effects:
  "moves (loop_effects env start end_pt steps d i n) =
     map (\<lambda>j. drag_position env start end_pt steps (i + j) (rnd env (d + 3 * j)) (rnd env (Suc (d + 3 * j)))) [0..<n]"
proof (induction n arbitrary: d i)
  case 0
  show ?case by simp
next
  case (Suc n)
  have "moves (loop_effects env start end_pt steps d i (Suc n)) =
        drag_position env start end_pt steps i (rnd env d) (rnd env (Suc d)) #
        moves (loop_effects env start end_pt steps (d + 3) (Suc i) n)"
    by (simp add: step_effects_def)
  also have "moves (loop_effects env start end_pt steps (d + 3) (Suc i) n) =
     map (\<lambda>j. drag_position env start end_pt steps (i + Suc j) (rnd env (d + 3 * Suc j)) (rnd env (Suc (d + 3 * Suc j)))) [0..<n]"
    by (simp add: Suc.IH add.assoc add.commute)
  finally show ?case
    by (simp only: map_upt_Suc) simp
qed

lemma bind_assoc: "bind (bind m f) g = bind m (\<lambda>v. bind (f v) g)"
  by (rule ext) (simp add: bind_def split: prod.splits sum.splits)

lemma humanLikeDrag_phases:
  "humanLikeDrag env start end_pt =
     bind (drag_press env start) (\<lambda>r.
     bind (drag_loop env start end_pt (drag_steps r) 0) (\<lambda>_.
     drag_release env))"
  by (simp add: humanLikeDrag_def drag_press_def drag_release_def bind_assoc)

lemma drag_press_ok:
  "mouse_ok env (mouse_calls w) \<Longrightarrow> mouse_ok env (Suc (mouse_calls w)) \<Longrightarrow>
   \<exists>w1. drag_press env start w = (Inr (rnd env (Suc (draws w))), w1) \<and>
        pressed w1 \<and> pointer w1 = start \<and> draws w1 = draws w + 2 \<and>
        mouse_calls w1 = mouse_calls w + 2 \<and>
        effects w1 = effects w @
          [MouseMove (fst start) (snd start) 10, MouseDown,
           Sleep (js_add 200 (js_mul (rnd env (draws w)) 150))]"
  by (simp add: drag_press_def bind_def mouse_move_def mouse_down_def random_def sleep_def emit_def)

lemma drag_press_fail:
  "\<not> (mouse_ok env (mouse_calls w) \<and> mouse_ok env (Suc (mouse_calls w))) \<Longrightarrow>
   \<exists>w1. drag_press env start w = (Inl PointerFailed, w1) \<and> pressed w1 = pressed w \<and>
        (\<exists>xs. effects w1 = effects w @ xs \<and> MouseUp \<notin> set xs)"
  by (cases "mouse_ok env (mouse_calls w)")
    (simp_all add: drag_press_def bind_def mouse_move_def mouse_down_def random_def sleep_def emit_def)

lemma drag_release_ok:
  "mouse_ok env (mouse_calls w) \<Longrightarrow>
   \<exists>w1. drag_release env w = (Inr (), w1) \<and>
        \<not> pressed w1 \<and> pointer w1 = pointer w \<and> draws w1 = draws w + 1 \<and>
        mouse_calls w1 = mouse_calls w + 1 \<and>
        effects w1 = effects w @ [Sleep (js_add 250 (js_mul (rnd env (draws w)) 200)), MouseUp]"
  by (simp add: drag_release_def bind_def mouse_up_def random_def sleep_def emit_def)

lemma drag_release_fail:
  "\<not> mouse_ok env (mouse_calls w) \<Longrightarrow> fst (drag_release env w) = Inl PointerFailed"
  by (simp add: drag_release_def bind_def mouse_up_def random_def sleep_def emit_def)

lemma humanLikeDrag_ok_upto:
  assumes ok: "\<forall>k < drag_steps (rnd env (Suc (draws w))) + 4. mouse_ok env (mouse_calls w + k)"
  shows "\<exists>w'. humanLikeDrag env start end_pt w = (Inr (), w') \<and>
        \<not> pressed w' \<and>
        pointer w' = drag_position env start end_pt (drag_steps (rnd env (Suc (draws w))))
                       (drag_steps (rnd env (Suc (draws w))))
                       (rnd env (draws w + 2 + 3 * drag_steps (rnd env (Suc (draws w)))))
                       (rnd env (draws w + 3 + 3 * drag_steps (rnd env (Suc (draws w))))) \<and>
        draws w' = draws w + 3 * Suc (drag_steps (rnd env (Suc (draws w)))) + 3 \<and>
        mouse_calls w' = mouse_calls w + drag_steps (rnd env (Suc (draws w))) + 4 \<and>
        effects w' = effects w @
          [MouseMove (fst start) (snd start) 10, MouseDown,
           Sleep (js_add 200 (js_mul (rnd env (draws w)) 150))] @
          loop_effects env start end_pt (drag_steps (rnd env (Suc (draws w)))) (draws w + 2) 0
             (Suc (drag_steps (rnd env (Suc (draws w))))) @
          [Sleep (js_add 250
             (js_mul (rnd env (draws w + 3 * Suc (drag_steps (rnd env (Suc (draws w)))) + 2)) 200)),
           MouseUp]"
proof -
  define steps where "steps = drag_steps (rnd env (Suc (draws w)))"
  have okk: "mouse_ok env (mouse_calls w + k)" if "k < steps + 4" for k
    using ok that by (simp add: steps_def)
  have ok0: "mouse_ok env (mouse_calls w)" using okk [of 0] by simp
  have ok1: "mouse_ok env (Suc (mouse_calls w))" using okk [of 1] by simp
  from drag_press_ok [OF ok0 ok1, where start = start]
  obtain w1 where w1: "drag_press env start w = (Inr (rnd env (Suc (draws w))), w1)"
    "pressed w1" "pointer w1 = start" "draws w1 = draws w + 2" "mouse_calls w1 = mouse_calls w + 2"
    "effects w1 = effects w @
          [MouseMove (fst start) (snd start) 10, MouseDown,
           Sleep (js_add 200 (js_mul (rnd env (draws w)) 150))]"
    by blast
  have okl: "\<forall>k<Suc steps. mouse_ok env (mouse_calls w1 + k)"
  proof (intro allI impI)
    fix k assume "k < Suc steps"
    then have "k + 2 < steps + 4" by simp
    from okk [OF this] have "mouse_ok env (mouse_calls w + (k + 2))" .
    moreover have "mouse_calls w1 + k = mouse_calls w + (k + 2)" by (simp add: w1(5))
    ultimately show "mouse_ok env (mouse_calls w1 + k)" by simp
  qed
  have "Suc steps = 0 + Suc steps" by simp
  from drag_loop_ok [OF okl this, where start = start and end_pt = end_pt]
  obtain w2 where w2: "drag_loop env start end_pt steps 0 w1 = (Inr (), w2)"
    "pressed w2 = pressed w1" "draws w2 = draws w1 + 3 * Suc steps" "mouse_calls w2 = mouse_calls w1 + Suc steps"
    "effects w2 = effects w1 @ loop_effects env start end_pt steps (draws w1) 0 (Suc steps)"
    "pointer w2 = drag_position env start end_pt steps steps
                                    (rnd env (draws w2 - 3)) (rnd env (draws w2 - 2))"
    by auto
  have "mouse_calls w2 = mouse_calls w + (steps + 3)" by (simp add: w2(4) w1(5))
  moreover have "mouse_ok env (mouse_calls w + (steps + 3))" by (rule okk) simp
  ultimately have okr: "mouse_ok env (mouse_calls w2)" by simp
  from drag_release_ok [OF okr]
  obtain w3 where w3: "drag_release env w2 = (Inr (), w3)"
    "\<not> pressed w3" "pointer w3 = pointer w2" "draws w3 = draws w2 + 1" "mouse_calls w3 = mouse_calls w2 + 1"
    "effects w3 = effects w2 @ [Sleep (js_add 250 (js_mul (rnd env (draws w2)) 200)), MouseUp]"
    by blast
  have d: "draws w2 - 3 = draws w + 2 + 3 * steps" "draws w2 - 2 = draws w + 3 + 3 * steps"
    by (simp_all add: w2(3) w1(4))
  have h: "humanLikeDrag env start end_pt w = (Inr (), w3)"
    by (simp add: humanLikeDrag_phases bind_def w1(1) steps_def [symmetric] w2(1) w3(1))
  have p: "pointer w3 = drag_position env start end_pt steps steps
             (rnd env (draws w + 2 + 3 * steps)) (rnd env (draws w + 3 + 3 * steps))"
    by (simp only: w3(3) w2(6) d)
  have r: "\<not> pressed w3" "draws w3 = draws w + 3 * Suc steps + 3"
    "mouse_calls w3 = mouse_calls w + steps + 4"
    using w1(2-5) w2(2-4) w3(2,4,5) by simp_all
  have e: "effects w3 = effects w @
          [MouseMove (fst start) (snd start) 10, MouseDown,
           Sleep (js_add 200 (js_mul (rnd env (draws w)) 150))] @
          loop_effects env start end_pt steps (draws w + 2) 0 (Suc steps) @
          [Sleep (js_add 250 (js_mul (rnd env (draws w + 3 * Suc steps + 2)) 200)), MouseUp]"
    using w1(4,6) w2(3,5) w3(6) by (simp add: add.commute add.left_commute)
  show ?thesis
    unfolding steps_def [symmetric] using h p r e by blast
qed

lemma humanLikeDrag_ok:
  assumes ok: "\<forall>k. mouse_ok env k"
  shows "\<exists>w'. humanLikeDrag env start end_pt w = (Inr (), w') \<and>
        \<not> pressed w' \<and>
        pointer w' = drag_position env start end_pt (drag_steps (rnd env (Suc (draws w))))
                       (drag_steps (rnd env (Suc (draws w))))
                       (rnd env (draws w + 2 + 3 * drag_steps (rnd env (Suc (draws w)))))
                       (rnd env (draws w + 3 + 3 * drag_steps (rnd env (Suc (draws w))))) \<and>
        draws w' = draws w + 3 * Suc (drag_steps (rnd env (Suc (draws w)))) + 3 \<and>
        mouse_calls w' = mouse_calls w + drag_steps (rnd env (Suc (draws w))) + 4 \<and>
        effects w' = effects w @
          [MouseMove (fst start) (snd start) 10, MouseDown,
           Sleep (js_add 200 (js_mul (rnd env (draws w)) 150))] @
          loop_effects env start end_pt (drag_steps (rnd env (Suc (draws w)))) (draws w + 2) 0
             (Suc (drag_steps (rnd env (Suc (draws w))))) @
          [Sleep (js_add 250
             (js_mul (rnd env (draws w + 3 * Suc (drag_steps (rnd env (Suc (draws w)))) + 2)) 200)),
           MouseUp]"
  by (rule humanLikeDrag_ok_upto) (simp add: ok)

lemma bind_fst_Inr:
  "fst (bind m f w) = Inr v \<Longrightarrow> \<exists>u w1. m w = (Inr u, w1) \<and> bind m f w = f u w1"
  by (cases "m w") (auto simp: bind_def split: sum.splits)

lemma drag_step_pressed: "pressed (snd (drag_step env start end_pt steps i w)) = pressed w"
  by (cases "mouse_ok env (mouse_calls w)") (simp_all add: drag_step_ok drag_step_fail)

lemma drag_step_error: "fst (drag_step env start end_pt steps i w) = Inl e \<Longrightarrow> e = PointerFailed"
  by (cases "mouse_ok env (mouse_calls w)") (simp_all add: drag_step_ok drag_step_fail)

lemma drag_step_effects:
  "\<exists>xs. effects (snd (drag_step env start end_pt steps i w)) = effects w @ xs \<and>
        MouseUp \<notin> set xs \<and> MouseDown \<notin> set xs"
  by (cases "mouse_ok env (mouse_calls w)") (simp_all add: drag_step_ok drag_step_fail step_effects_def)

lemma drag_loop_any:
  "pressed (snd (drag_loop env start end_pt steps i w)) = pressed w \<and>
   (\<forall>e. fst (drag_loop env start end_pt steps i w) = Inl e \<longrightarrow> e = PointerFailed) \<and>
   (\<exists>xs. effects (snd (drag_loop env start end_pt steps i w)) = effects w @ xs \<and>
         MouseUp \<notin> set xs \<and> MouseDown \<notin> set xs)"
proof (induction env start end_pt steps i w rule: drag_loop.induct)
  case (1 env start end_pt steps i w)
  show ?case
  proof (cases "i \<le> steps")
    case False
    then show ?thesis by (subst (1 2 3) drag_loop.simps) simp
  next
    case True
    obtain r w1 where st: "drag_step env start end_pt steps i w = (r, w1)"
      by (cases "drag_step env start end_pt steps i w")
    have p1: "pressed w1 = pressed w" using drag_step_pressed [of env start end_pt steps i w] st by simp
    obtain xs where xs: "effects w1 = effects w @ xs" "MouseUp \<notin> set xs" "MouseDown \<notin> set xs"
      using drag_step_effects [of env start end_pt steps i w] st by auto
    show ?thesis
    proof (cases r)
      case (Inl e)
      then have "e = PointerFailed" using drag_step_error [of env start end_pt steps i w e] st by simp
      with Inl st True p1 xs show ?thesis by (subst (1 2 3) drag_loop.simps) simp
    next
      case (Inr u)
      have unf: "drag_loop env start end_pt steps i w = drag_loop env start end_pt steps (Suc i) w1"
        using True st Inr by (subst drag_loop.simps) simp
      from "1.IH" [OF True st [symmetric] Inr]
      obtain ys where ih: "pressed (snd (drag_loop env start end_pt steps (Suc i) w1)) = pressed w1"
        "\<forall>e. fst (drag_loop env start end_pt steps (Suc i) w1) = Inl e \<longrightarrow> e = PointerFailed"
        "effects (snd (drag_loop env start end_pt steps (Suc i) w1)) = effects w1 @ ys"
        "MouseUp \<notin> set ys" "MouseDown \<notin> set ys"
        by auto
      have "effects (snd (drag_loop env start end_pt steps i w)) = effects w @ (xs @ ys)"
        "MouseUp \<notin> set (xs @ ys)" "MouseDown \<notin> set (xs @ ys)"
        using ih xs unf by simp_all
      then have "\<exists>zs. effects (snd (drag_loop env start end_pt steps i w)) = effects w @ zs \<and>
         MouseUp \<notin> set zs \<and> MouseDown \<notin> set zs" by blast
      then show ?thesis using ih(1,2) p1 unf by simp
    qed
  qed
qed

lemma drag_release_any:
  "(fst (drag_release env w) = Inr () \<longrightarrow> \<not> pressed (snd (drag_release env w))) \<and>
   (\<forall>e. fst (drag_release env w) = Inl e \<longrightarrow>
      e = PointerFailed \<and> pressed (snd (drag_release env w)) = pressed w \<and>
      (\<exists>xs. effects (snd (drag_release env w)) = effects w @ xs \<and> MouseUp \<notin> set xs))"
  by (simp add: drag_release_def bind_def mouse_up_def random_def sleep_def emit_def)

lemma humanLikeDrag_fails:
  assumes bad: "\<not> (\<forall>k < drag_steps (rnd env (Suc (draws w))) + 4. mouse_ok env (mouse_calls w + k))"
  shows "fst (humanLikeDrag env start end_pt w) = Inl PointerFailed \<and>
         MouseUp \<notin> set (drop (length (effects w)) (effects (snd (humanLikeDrag env start end_pt w)))) \<and>
         pressed (snd (humanLikeDrag env start end_pt w)) =
           (pressed w \<or> (mouse_ok env (mouse_calls w) \<and> mouse_ok env (Suc (mouse_calls w))))"
proof (cases "mouse_ok env (mouse_calls w) \<and> mouse_ok env (Suc (mouse_calls w))")
  case False
  from drag_press_fail [OF False, where start = start]
  obtain w1 xs where w1: "drag_press env start w = (Inl PointerFailed, w1)" "pressed w1 = pressed w"
    "effects w1 = effects w @ xs" "MouseUp \<notin> set xs"
    by blast
  have "humanLikeDrag env start end_pt w = (Inl PointerFailed, w1)"
    by (simp add: humanLikeDrag_phases bind_def w1(1))
  then show ?thesis using False w1 by auto
next
  case True
  define steps where "steps = drag_steps (rnd env (Suc (draws w)))"
  from True have ok: "mouse_ok env (mouse_calls w)" "mouse_ok env (Suc (mouse_calls w))" by simp_all
  from drag_press_ok [OF ok, where start = start]
  obtain w1 where w1: "drag_press env start w = (Inr (rnd env (Suc (draws w))), w1)"
    "pressed w1" "mouse_calls w1 = mouse_calls w + 2"
    "effects w1 = effects w @
          [MouseMove (fst start) (snd start) 10, MouseDown,
           Sleep (js_add 200 (js_mul (rnd env (draws w)) 150))]"
    by blast
  obtain r2 w2 where w2: "drag_loop env start end_pt steps 0 w1 = (r2, w2)"
    by (cases "drag_loop env start end_pt steps 0 w1")
  from drag_loop_any [of env start end_pt steps 0 w1] w2
  obtain xs where l: "pressed w2 = pressed w1" "\<forall>e. r2 = Inl e \<longrightarrow> e = PointerFailed"
    "effects w2 = effects w1 @ xs" "MouseUp \<notin> set xs"
    by auto
  show ?thesis
  proof (cases r2)
    case (Inl e2)
    then have "humanLikeDrag env start end_pt w = (Inl e2, w2)"
      by (simp add: humanLikeDrag_phases bind_def w1(1) w2 steps_def [symmetric])
    with l w1 Inl True show ?thesis by simp
  next
    case (Inr u)
    have h: "humanLikeDrag env start end_pt w = drag_release env w2"
      using Inr by (simp add: humanLikeDrag_phases bind_def w1(1) w2 steps_def [symmetric])
    have "Suc steps = 0 + Suc steps" by simp
    have all: "\<forall>k<Suc steps. mouse_ok env (mouse_calls w1 + k)"
    proof (rule ccontr)
      assume "\<not> (\<forall>k<Suc steps. mouse_ok env (mouse_calls w1 + k))"
      from drag_loop_fails [OF this \<open>Suc steps = 0 + Suc steps\<close>, of start end_pt]
      show False using w2 Inr by simp
    qed
    from drag_loop_ok [OF all \<open>Suc steps = 0 + Suc steps\<close>, of start end_pt] w2
    have m: "mouse_calls w2 = mouse_calls w1 + Suc steps" by auto
    from bad obtain k where k: "k < steps + 4" "\<not> mouse_ok env (mouse_calls w + k)"
      unfolding steps_def by blast
    have "k = steps + 3"
    proof (rule ccontr)
      assume n: "k \<noteq> steps + 3"
      have "k \<noteq> 0" using k(2) ok(1) by (metis add.right_neutral)
      moreover have "k \<noteq> 1" using k(2) ok(2) by (metis add.commute plus_1_eq_Suc)
      ultimately have "2 \<le> k" by simp
      then obtain j where j: "k = j + 2" by (metis le_add_diff_inverse2)
      with k(1) n have "j < Suc steps" by simp
      with all have "mouse_ok env (mouse_calls w1 + j)" by blast
      moreover have "mouse_calls w1 + j = mouse_calls w + k" by (simp add: w1(3) j)
      ultimately show False using k(2) by simp
    qed
    moreover have "mouse_calls w2 = mouse_calls w + (steps + 3)" by (simp add: m w1(3))
    ultimately have "\<not> mouse_ok env (mouse_calls w2)" using k(2) by simp
    then have f: "fst (drag_release env w2) = Inl PointerFailed" by (rule drag_release_fail)
    from drag_release_any [of env w2] f
    obtain ys where "pressed (snd (drag_release env w2)) = pressed w2"
      "effects (snd (drag_release env w2)) = effects w2 @ ys" "MouseUp \<notin> set ys"
      by auto
    with h f l w1 True show ?thesis by simp
  qed
qed

lemma moves_humanLikeDrag:
  assumes ok: "\<forall>k. mouse_ok env k"
  shows "moves (effects (snd (humanLikeDrag env start end_pt w))) =
     moves (effects w) @ start #
       map (\<lambda>i. drag_position env start end_pt (drag_steps (rnd env (Suc (draws w)))) i
                  (rnd env (draws w + 2 + 3 * i)) (rnd env (draws w + 3 + 3 * i)))
           [0..<Suc (drag_steps (rnd env (Suc (draws w))))]"
proof -
  from humanLikeDrag_ok [OF ok, where start = start and end_pt = end_pt and w = w]
  obtain w' where w': "humanLikeDrag env start end_pt w = (Inr (), w')"
     "effects w' = effects w @
          [MouseMove (fst start) (snd start) 10, MouseDown,
           Sleep (js_add 200 (js_mul (rnd env (draws w)) 150))] @
          loop_effects env start end_pt (drag_steps (rnd env (Suc (draws w)))) (draws w + 2) 0
             (Suc (drag_steps (rnd env (Suc (draws w))))) @
          [Sleep (js_add 250
             (js_mul (rnd env (draws w + 3 * Suc (drag_steps (rnd env (Suc (draws w)))) + 2)) 200)),
           MouseUp]"
    by blast
  have e: "Suc (draws w + 2 + 3 * j) = draws w + 3 + 3 * j" for j by simp
  show ?thesis
    by (simp only: w' snd_conv moves_append moves_loop_effects e) simp
qed


lemma sample_steps: "drag_steps (rnd sample_env (Suc (draws sample_world))) = 45"
  by (simp add: sample_env_def sample_world_def drag_steps_def Math_floor_def js_mul_def)

lemma quarter_steps: "drag_steps (1 / 4) = 45"
  by (simp add: drag_steps_def Math_floor_def js_mul_def)

lemma sample_ok: "\<forall>k. mouse_ok sample_env k"
  by (simp add: sample_env_def)

lemma sample_draw: "rnd sample_env k = 1 / 4" "is_draw (1 / 4)"
  by (simp_all add: sample_env_def is_draw_def is_double_def)

lemma sample_sin_pi: "Math_sin sample_env Math_PI = 4967757600021511 / 2 ^ 105"
  using Math_PI_bounds by (simp add: Math_sin_def sample_env_def)

lemma sample_jitter_last:
  "js_mul (js_mul (js_sub (1 / 4) (1 / 2)) 4) (Math_sin sample_env Math_PI) =
     - (4967757600021511 / 2 ^ 105)"
proof -
  have a: "js_mul (js_sub (1 / 4) (1 / 2)) 4 = - 1"
    by (simp add: js_sub_def js_mul_def)
  have "double (- (4967757600021511 / 2 ^ 105)) = - (4967757600021511 / 2 ^ 105)"
    using double_div_pow2 [of "- 4967757600021511" 105] by simp
  then have b: "js_mul (- 1) (4967757600021511 / 2 ^ 105) = - (4967757600021511 / 2 ^ 105)"
    by (simp add: js_mul_def)
  show ?thesis by (simp only: a sample_sin_pi b)
qed

lemma sample_absorb:
  "js_add 662 (- (4967757600021511 / 2 ^ 105)) = 662"
  "js_add 720 (- (4967757600021511 / 2 ^ 105)) = 720"
  "js_add 442 (- (4967757600021511 / 2 ^ 105)) = 442"
  "js_add 10 (- (4967757600021511 / 2 ^ 105)) = 10"
proof -
  note p = powr_neg_numeral
  have "double (662 + - (4967757600021511 / 2 ^ 105)) = of_int (662 * 2 ^ 43) * 2 powr of_int (9 - 52)"
    by (rule double_near) (simp_all add: p)
  then show "js_add 662 (- (4967757600021511 / 2 ^ 105)) = 662" by (simp add: p js_add_def)
  have "double (720 + - (4967757600021511 / 2 ^ 105)) = of_int (720 * 2 ^ 43) * 2 powr of_int (9 - 52)"
    by (rule double_near) (simp_all add: p)
  then show "js_add 720 (- (4967757600021511 / 2 ^ 105)) = 720" by (simp add: p js_add_def)
  have "double (442 + - (4967757600021511 / 2 ^ 105)) = of_int (442 * 2 ^ 44) * 2 powr of_int (8 - 52)"
    by (rule double_near) (simp_all add: p)
  then show "js_add 442 (- (4967757600021511 / 2 ^ 105)) = 442" by (simp add: p js_add_def)
  have "double (10 + - (4967757600021511 / 2 ^ 105)) = of_int (10 * 2 ^ 49) * 2 powr of_int (3 - 52)"
    by (rule double_near) (simp_all add: p)
  then show "js_add 10 (- (4967757600021511 / 2 ^ 105)) = 10" by (simp add: p js_add_def)
qed

lemma double_sample_numerals [simp]:
  "double 520 = 520" "double 720 = 720" "double 662 = 662" "double 442 = 442" "double 10 = 10"
  "double 142 = 142" "double (- 78) = - 78" "double 20 = 20" "double 40 = 40" "double 1000 = 1000"
  using double_of_int [of 520] double_of_int [of 720] double_of_int [of 662] double_of_int [of 442]
    double_of_int [of 10] double_of_int [of 142] double_of_int [of "- 78"] double_of_int [of 20]
    double_of_int [of 40] double_of_int [of 1000]
  by simp_all

lemma sample_arith:
  "js_sub 662 520 = 142" "js_add 520 142 = 662" "js_sub 720 720 = 0" "js_add 720 0 = 720"
  "js_sub 442 520 = - 78" "js_add 520 (- 78) = 442"
  "js_sub 10 0 = 10" "js_add 0 10 = 10" "js_sub 0 0 = 0" "js_add 0 0 = 0"
  "js_add 0 (- (4967757600021511 / 2 ^ 105)) = - (4967757600021511 / 2 ^ 105)"
  using double_div_pow2 [of "- 4967757600021511" 105]
  by (simp_all add: js_sub_def js_add_def)


lemma round_even_tie:
  assumes "even n"
  shows "round_even (of_int n - 1 / 2) = n"
proof -
  have f: "\<lfloor>real_of_int n - 1 / 2\<rfloor> = n - 1" by linarith
  have "odd (n - 1)" using assms by simp
  then show ?thesis by (simp add: round_even_def f)
qed

lemma rounding_draw:
  "is_draw (2026619832316723 / 2 ^ 52)"
  "js_mul (2026619832316723 / 2 ^ 52) 20 = 9"
  "\<lfloor>(2026619832316723 / 2 ^ 52 :: real) * 20\<rfloor> = 8"
proof -
  have "double (2026619832316723 / 2 ^ 52) = 2026619832316723 / 2 ^ 52"
    using double_div_pow2 [of 2026619832316723 52] by simp
  then show "is_draw (2026619832316723 / 2 ^ 52)" by (simp add: is_draw_def is_double_def)
  note p = powr_neg_numeral
  have "double (2026619832316723 / 2 ^ 52 * 20) =
      of_int (round_even (2026619832316723 / 2 ^ 52 * 20 / 2 powr of_int (3 - 52))) * 2 powr of_int (3 - 52)"
    by (rule double_eval) (simp_all add: p)
  also have "2026619832316723 / 2 ^ 52 * 20 / 2 powr of_int (3 - 52) =
      real_of_int (9 * 2 ^ 49) - 1 / 2"
    by (simp add: p)
  also have "round_even (real_of_int (9 * 2 ^ 49) - 1 / 2) = 9 * 2 ^ 49"
    by (rule round_even_tie) simp
  finally show "js_mul (2026619832316723 / 2 ^ 52) 20 = 9" by (simp add: js_mul_def p)
  show "\<lfloor>(2026619832316723 / 2 ^ 52 :: real) * 20\<rfloor> = 8" by simp
qed

lemma rounding_steps: "drag_steps (rnd rounding_env (Suc (draws sample_world))) = 49"
proof -
  have "rnd rounding_env k = 2026619832316723 / 2 ^ 52" for k
    by (simp add: rounding_env_def)
  then show ?thesis
    by (simp only: drag_steps_def Math_floor_def rounding_draw(2)) simp
qed

lemma rounding_ok: "\<forall>k. mouse_ok rounding_env k"
  by (simp add: rounding_env_def sample_env_def)

lemma length_moves_humanLikeDrag:
  assumes ok: "\<forall>k. mouse_ok env k"
  shows "length (moves (effects (snd (humanLikeDrag env start end_pt w)))) =
         length (moves (effects w)) + drag_steps (rnd env (Suc (draws w))) + 2"
  by (simp add: moves_humanLikeDrag [OF ok])





text \<open>
  Claim C6, as amended. The drag issues \<open>steps + 4\<close> pointer primitives. When none of them
  fails the drag returns and leaves the pointer released. When one of them fails the
  drag throws that failure and issues no release: the button is pressed afterwards if it
  was pressed before or the first move and the press succeeded.
\<close>

theorem drag_release_on_return:
  "((\<forall>k < drag_steps (rnd env (Suc (draws w))) + 4. mouse_ok env (mouse_calls w + k)) \<longrightarrow>
      fst (humanLikeDrag env start end_pt w) = Inr () \<and>
      \<not> pressed (snd (humanLikeDrag env start end_pt w))) \<and>
   (\<not> (\<forall>k < drag_steps (rnd env (Suc (draws w))) + 4. mouse_ok env (mouse_calls w + k)) \<longrightarrow>
      fst (humanLikeDrag env start end_pt w) = Inl PointerFailed \<and>
      MouseUp \<notin> set (drop (length (effects w)) (effects (snd (humanLikeDrag env start end_pt w)))) \<and>
      pressed (snd (humanLikeDrag env start end_pt w)) =
        (pressed w \<or> (mouse_ok env (mouse_calls w) \<and> mouse_ok env (Suc (mouse_calls w)))))"
proof (intro conjI impI)
  assume a: "\<forall>k < drag_steps (rnd env (Suc (draws w))) + 4. mouse_ok env (mouse_calls w + k)"
  from humanLikeDrag_ok_upto [OF a, where start = start and end_pt = end_pt]
  obtain w' where w': "humanLikeDrag env start end_pt w = (Inr (), w')" "\<not> pressed w'"
    by blast
  show "fst (humanLikeDrag env start end_pt w) = Inr ()" by (simp add: w')
  show "\<not> pressed (snd (humanLikeDrag env start end_pt w))" by (simp add: w')
next
  assume b: "\<not> (\<forall>k < drag_steps (rnd env (Suc (draws w))) + 4. mouse_ok env (mouse_calls w + k))"
  note f = humanLikeDrag_fails [OF b, where start = start and end_pt = end_pt]
  show "fst (humanLikeDrag env start end_pt w) = Inl PointerFailed" using f by blast
  show "MouseUp \<notin> set (drop (length (effects w)) (effects (snd (humanLikeDrag env start end_pt w))))"
    using f by blast
  show "pressed (snd (humanLikeDrag env start end_pt w)) =
        (pressed w \<or> (mouse_ok env (mouse_calls w) \<and> mouse_ok env (Suc (mouse_calls w))))"
    using f by blast
qed

lemma failing_steps: "drag_steps (rnd failing_env (Suc (draws sample_world))) = 45"
  using sample_steps by (simp add: failing_env_def sample_env_def)

lemma failing_bad:
  "\<not> (\<forall>k < drag_steps (rnd failing_env (Suc (draws sample_world))) + 4.
        mouse_ok failing_env (mouse_calls sample_world + k))"
proof
  assume "\<forall>k < drag_steps (rnd failing_env (Suc (draws sample_world))) + 4.
        mouse_ok failing_env (mouse_calls sample_world + k)"
  moreover have "2 < drag_steps (rnd failing_env (Suc (draws sample_world))) + 4"
    by (simp add: failing_steps)
  ultimately have "mouse_ok failing_env (mouse_calls sample_world + 2)" by blast
  then show False by (simp add: failing_env_def sample_world_def)
qed

theorem drag_release_on_return_witness:
  "(\<forall>k. mouse_ok sample_env k) \<and>
   fst (humanLikeDrag sample_env (520, 720) (662, 720) sample_world) = Inr () \<and>
   \<not> pressed (snd (humanLikeDrag sample_env (520, 720) (662, 720) sample_world)) \<and>
   2 < drag_steps (rnd failing_env (Suc (draws sample_world))) + 4 \<and>
   \<not> mouse_ok failing_env (mouse_calls sample_world + 2) \<and>
   fst (humanLikeDrag failing_env (520, 720) (662, 720) sample_world) = Inl PointerFailed \<and>
   pressed (snd (humanLikeDrag failing_env (520, 720) (662, 720) sample_world)) \<and>
   MouseUp \<notin> set (drop (length (effects sample_world))
      (effects (snd (humanLikeDrag failing_env (520, 720) (662, 720) sample_world))))"
proof -
  note a = drag_release_on_return [where env = sample_env and start = "(520, 720)"
      and end_pt = "(662, 720)" and w = sample_world]
  note b = drag_release_on_return [where env = failing_env and start = "(520, 720)"
      and end_pt = "(662, 720)" and w = sample_world]
  have g: "\<forall>k < drag_steps (rnd sample_env (Suc (draws sample_world))) + 4.
      mouse_ok sample_env (mouse_calls sample_world + k)"
    using sample_ok by simp
  have r: "fst (humanLikeDrag sample_env (520, 720) (662, 720) sample_world) = Inr ()"
    "\<not> pressed (snd (humanLikeDrag sample_env (520, 720) (662, 720) sample_world))"
    using a g by blast+
  have k: "2 < drag_steps (rnd failing_env (Suc (draws sample_world))) + 4"
    by (simp add: failing_steps)
  have n: "\<not> mouse_ok failing_env (mouse_calls sample_world + 2)"
    by (simp add: failing_env_def sample_world_def)
  from k n have bad: "\<not> (\<forall>k < drag_steps (rnd failing_env (Suc (draws sample_world))) + 4.
        mouse_ok failing_env (mouse_calls sample_world + k))"
    by blast
  have ok2: "mouse_ok failing_env (mouse_calls sample_world)"
    "mouse_ok failing_env (Suc (mouse_calls sample_world))"
    by (simp_all add: failing_env_def sample_world_def)
  have f: "fst (humanLikeDrag failing_env (520, 720) (662, 720) sample_world) = Inl PointerFailed"
    "pressed (snd (humanLikeDrag failing_env (520, 720) (662, 720) sample_world))"
    "MouseUp \<notin> set (drop (length (effects sample_world))
      (effects (snd (humanLikeDrag failing_env (520, 720) (662, 720) sample_world))))"
    using b bad ok2 by blast+
  show ?thesis
    by (rule conjI sample_ok r k n f)+
qed

text \<open>
  Claim C6 as stated fails: with a driver whose third primitive (the first move of the
  loop) fails, the drag throws and leaves the pointer pressed.
\<close>

theorem drag_failure_keeps_pressed:
  "\<not> pressed sample_world \<and>
   fst (humanLikeDrag failing_env (520, 720) (662, 720) sample_world) = Inl PointerFailed \<and>
   pressed (snd (humanLikeDrag failing_env (520, 720) (662, 720) sample_world))"
proof -
  have ok2: "mouse_ok failing_env (mouse_calls sample_world)"
    "mouse_ok failing_env (Suc (mouse_calls sample_world))"
    by (simp_all add: failing_env_def sample_world_def)
  have "\<not> pressed sample_world" by (simp add: sample_world_def)
  then show ?thesis
    using humanLikeDrag_fails [OF failing_bad, where start = "(520, 720)" and end_pt = "(662, 720)"] ok2
    by blast
qed

text \<open>
  Claim C7, as amended. The number of steps is \<open>40 + \<lfloor>r \<cdot> 20\<rfloor>\<close> for the second draw
  \<open>r\<close> of the drag, the product rounded to a double before the floor is taken; it is
  between 40 and 59 for a draw in \<open>[0, 1)\<close>, and the loop makes one move more than that,
  whatever the start and the end are.
\<close>

theorem drag_steps_random:
  assumes "\<forall>k. mouse_ok env k"
    and "is_draw (rnd env (Suc (draws w)))"
  shows "length (moves (effects (snd (humanLikeDrag env start end_pt w)))) =
           length (moves (effects w)) + drag_steps (rnd env (Suc (draws w))) + 2 \<and>
         drag_steps (rnd env (Suc (draws w))) = 40 + nat \<lfloor>double (rnd env (Suc (draws w)) * 20)\<rfloor> \<and>
         40 \<le> drag_steps (rnd env (Suc (draws w))) \<and> drag_steps (rnd env (Suc (draws w))) \<le> 59"
  using length_moves_humanLikeDrag [OF assms(1)] drag_steps_range [OF assms(2)]
  by (simp add: drag_steps_def Math_floor_def js_mul_def)

theorem drag_steps_random_witness:
  "(\<forall>k. mouse_ok rounding_env k) \<and> is_draw (rnd rounding_env (Suc (draws sample_world))) \<and>
   length (moves (effects (snd (humanLikeDrag rounding_env (520, 720) (662, 720) sample_world)))) = 51 \<and>
   drag_steps (rnd rounding_env (Suc (draws sample_world))) = 49 \<and>
   40 + nat \<lfloor>rnd rounding_env (Suc (draws sample_world)) * 20\<rfloor> = 48"
proof -
  have r: "rnd rounding_env k = 2026619832316723 / 2 ^ 52" for k
    by (simp add: rounding_env_def)
  have d: "is_draw (rnd rounding_env (Suc (draws sample_world)))"
    by (simp only: r rounding_draw)
  note t = drag_steps_random [OF rounding_ok d, where start = "(520, 720)" and end_pt = "(662, 720)",
      unfolded rounding_steps]
  have l: "length (moves (effects (snd (humanLikeDrag rounding_env (520, 720) (662, 720) sample_world)))) = 51"
    using t by (simp add: sample_world_def)
  have e: "40 + nat \<lfloor>rnd rounding_env (Suc (draws sample_world)) * 20\<rfloor> = 48"
    by (simp only: r rounding_draw(3))
  show ?thesis using rounding_ok d l rounding_steps e by blast
qed

text \<open>
  Claim C7 as stated fails: with the same draws, drags over the distances 0, 10 and 1000
  all make 45 steps (47 moves with the first one).
\<close>

theorem drag_steps_ignore_distance:
  "length (moves (effects (snd (humanLikeDrag sample_env (0, 0) (0, 0) sample_world)))) = 47 \<and>
   length (moves (effects (snd (humanLikeDrag sample_env (0, 0) (10, 0) sample_world)))) = 47 \<and>
   length (moves (effects (snd (humanLikeDrag sample_env (0, 0) (1000, 0) sample_world)))) = 47"
  by (simp add: length_moves_humanLikeDrag [OF sample_ok] sample_steps) (simp add: sample_world_def)

section \<open>Properties of the solver client\<close>

lemma truthy_string_None [simp]: "truthy_string None = None"
  by (simp add: truthy_string_def)

lemma truthy_number_None [simp]: "truthy_number None = None"
  by (simp add: truthy_number_def)

lemma build_request_missing:
  assumes "required_missing opts"
  shows "build_request env opts w = (Inl (ParamsRequired (captchaType opts)), w)"
proof -
  consider (wp) "captchaType opts = ''whirl'' \<or> captchaType opts = ''puzzle''"
    | (c3) "captchaType opts = ''3d''" | (ic) "captchaType opts = ''icon''"
    using assms by (auto simp: required_missing_def split: if_splits)
  then show ?thesis
  proof cases
    case wp
    with assms have m: "backgroundUrl opts = None \<or> puzzleUrl opts = None \<or> width opts = None \<or> height opts = None"
      by (auto simp: required_missing_def)
    from wp m show ?thesis
      by (auto simp: build_request_def throw_def split: option.splits)
  next
    case c3
    with assms have m: "imageBase64 opts = None \<or> width opts = None \<or> height opts = None"
      by (auto simp: required_missing_def)
    from c3 m show ?thesis
      by (auto simp: build_request_def throw_def split: option.splits)
  next
    case ic
    with assms have m: "imageBase64 opts = None \<or> width opts = None \<or> height opts = None \<or> question opts = None"
      by (auto simp: required_missing_def)
    from ic m show ?thesis
      by (auto simp: build_request_def throw_def split: option.splits)
  qed
qed

lemma build_request_unsupported:
  assumes "captchaType opts \<notin> {''whirl'', ''puzzle'', ''3d'', ''icon''}"
  shows "build_request env opts w = (Inl (UnsupportedType (captchaType opts)), w)"
  using assms by (simp add: build_request_def throw_def)

lemma urlToB64_throws_iff:
  "(\<exists>e. fst (urlToB64 env url w) = Inl e) \<longleftrightarrow> fetch_fails env url"
  by (simp add: urlToB64_def fetch_fails_def bind_def emit_def throw_def return_def
      split: image_reply.splits)

lemma fetch_pair_throws_iff:
  "(\<exists>e. fst (bind (urlToB64 env bg) (\<lambda>outer. bind (urlToB64 env pz) (\<lambda>inner. return (f outer inner))) w) = Inl e)
     \<longleftrightarrow> fetch_fails env bg \<or> fetch_fails env pz"
  by (simp add: urlToB64_def fetch_fails_def bind_def emit_def throw_def return_def
      split: image_reply.splits)

lemma build_request_throws_iff:
  "(\<exists>e. fst (build_request env opts w) = Inl e) \<longleftrightarrow>
     \<not> kind_supported opts \<or> field_unusable opts \<or> image_unfetchable env opts"
proof -
  consider (whirl) "captchaType opts = ''whirl''" | (puzzle) "captchaType opts = ''puzzle''"
    | (c3) "captchaType opts = ''3d''" | (icon) "captchaType opts = ''icon''"
    | (other) "\<not> kind_supported opts"
    by (auto simp: kind_supported_def)
  then show ?thesis
  proof cases
    case whirl
    show ?thesis
    proof (cases "field_unusable opts")
      case True
      then show ?thesis using whirl
        by (auto simp: build_request_def field_unusable_def throw_def split: option.splits)
    next
      case False
      then obtain bg pz wd ht where v: "truthy_string (backgroundUrl opts) = Some bg"
        "truthy_string (puzzleUrl opts) = Some pz" "truthy_number (width opts) = Some wd"
        "truthy_number (height opts) = Some ht"
        using whirl by (auto simp: field_unusable_def)
      show ?thesis
        using whirl False v
        by (simp add: build_request_def kind_supported_def image_unfetchable_def fetch_pair_throws_iff)
    qed
  next
    case puzzle
    show ?thesis
    proof (cases "field_unusable opts")
      case True
      then show ?thesis using puzzle
        by (auto simp: build_request_def field_unusable_def throw_def split: option.splits)
    next
      case False
      then obtain bg pz wd ht where v: "truthy_string (backgroundUrl opts) = Some bg"
        "truthy_string (puzzleUrl opts) = Some pz" "truthy_number (width opts) = Some wd"
        "truthy_number (height opts) = Some ht"
        using puzzle by (auto simp: field_unusable_def)
      show ?thesis
        using puzzle False v
        by (simp add: build_request_def kind_supported_def image_unfetchable_def fetch_pair_throws_iff)
    qed
  next
    case c3
    then show ?thesis
      by (auto simp: build_request_def field_unusable_def kind_supported_def image_unfetchable_def
          throw_def return_def split: option.splits)
  next
    case icon
    then show ?thesis
      by (auto simp: build_request_def field_unusable_def kind_supported_def image_unfetchable_def
          throw_def return_def split: option.splits)
  next
    case other
    then show ?thesis
      by (simp add: build_request_def kind_supported_def throw_def)
  qed
qed

text \<open>
  Claim C8. A request that lacks a field its kind requires (whirl and puzzle: the two
  image URLs, width and height; 3d: the image, width and height; icon: the image, width,
  height and the question) makes \<open>solveCaptcha\<close> throw with the world untouched: no
  image was fetched and nothing was posted. So does a request of a kind the code does
  not know, the specification's name cube3d among them.
\<close>

theorem missing_field_fails_before_network:
  assumes "required_missing opts \<or> captchaType opts \<notin> {''whirl'', ''puzzle'', ''3d'', ''icon''}"
  shows "solveCaptcha env opts w =
           (Inl (if required_missing opts then ParamsRequired (captchaType opts)
                 else UnsupportedType (captchaType opts)), w) \<and>
         network_calls (effects (snd (solveCaptcha env opts w))) = network_calls (effects w)"
proof (cases "required_missing opts")
  case True
  then show ?thesis
    by (simp add: solveCaptcha_def bind_def build_request_missing)
next
  case False
  with assms have "captchaType opts \<notin> {''whirl'', ''puzzle'', ''3d'', ''icon''}" by blast
  then have "build_request env opts w = (Inl (UnsupportedType (captchaType opts)), w)"
    by (rule build_request_unsupported)
  with False show ?thesis
    by (simp add: solveCaptcha_def bind_def)
qed

theorem missing_field_fails_before_network_witness:
  "required_missing (solve_3d_options ''aW1hZ2U='') \<and>
   solveCaptcha sample_env (solve_3d_options ''aW1hZ2U='') sample_world =
     (Inl (ParamsRequired ''3d''), sample_world) \<and>
   required_missing (captcha_options sample_env [''https://p16-a.example/bg.png'']) \<and>
   solveCaptcha sample_env (captcha_options sample_env [''https://p16-a.example/bg.png'']) sample_world =
     (Inl (ParamsRequired ''whirl''), sample_world) \<and>
   solveCaptcha sample_env ((solve_3d_options ''aW1hZ2U='')\<lparr>captchaType := ''cube3d''\<rparr>) sample_world =
     (Inl (UnsupportedType ''cube3d''), sample_world)"
proof -
  have a: "required_missing (solve_3d_options ''aW1hZ2U='')"
    by (simp add: required_missing_def solve_3d_options_def)
  have b: "required_missing (captcha_options sample_env [''https://p16-a.example/bg.png''])"
    by (simp add: required_missing_def captcha_options_def js_index_def)
  have c: "captchaType ((solve_3d_options ''aW1hZ2U='')\<lparr>captchaType := ''cube3d''\<rparr>)
      \<notin> {''whirl'', ''puzzle'', ''3d'', ''icon''}"
    by simp
  have d: "\<not> required_missing ((solve_3d_options ''aW1hZ2U='')\<lparr>captchaType := ''cube3d''\<rparr>)"
    by (simp add: required_missing_def)
  have x: "solveCaptcha sample_env (solve_3d_options ''aW1hZ2U='') sample_world =
     (Inl (ParamsRequired ''3d''), sample_world)"
    using missing_field_fails_before_network [OF disjI1 [OF a], of sample_env sample_world] a
    by (simp add: solve_3d_options_def)
  have y: "solveCaptcha sample_env (captcha_options sample_env [''https://p16-a.example/bg.png'']) sample_world =
     (Inl (ParamsRequired ''whirl''), sample_world)"
    using missing_field_fails_before_network [OF disjI1 [OF b], of sample_env sample_world] b
    by (simp add: captcha_options_def)
  have z: "solveCaptcha sample_env ((solve_3d_options ''aW1hZ2U='')\<lparr>captchaType := ''cube3d''\<rparr>) sample_world =
     (Inl (UnsupportedType ''cube3d''), sample_world)"
    using missing_field_fails_before_network [OF disjI2 [OF c], of sample_env sample_world] d
    by simp
  show ?thesis using a b x y z by blast
qed

lemma post_request_throws_iff:
  "(\<exists>e. fst (post_request env endpoint pl w) = Inl e) \<longleftrightarrow>
     claimed_throw_condition (fetch_service env endpoint pl) \<or> body_not_object (fetch_service env endpoint pl)"
  by (simp add: post_request_def bind_def emit_def throw_def return_def claimed_throw_condition_def
      body_not_object_def split: service_reply.splits service_body.splits option.splits)

lemma post_request_returns:
  assumes "fetch_service env endpoint pl = ServiceReply True status (JsonObject result) txt"
    and "truthy_string (sol_errorMsg result) = None"
  shows "fst (post_request env endpoint pl w) = Inr result"
  using assms by (simp add: post_request_def bind_def emit_def return_def)

lemma solveCaptcha_built:
  assumes "build_request env opts w = (Inr (endpoint, pl), w1)"
  shows "solveCaptcha env opts w = post_request env endpoint pl w1"
  using assms by (simp add: solveCaptcha_def bind_def)

lemma solveCaptcha_not_built:
  assumes "fst (build_request env opts w) = Inl e"
  shows "fst (solveCaptcha env opts w) = Inl e"
  using assms by (cases "build_request env opts w") (simp add: solveCaptcha_def bind_def)

text \<open>
  Claim C9, as amended. \<open>solveCaptcha\<close> throws exactly when the kind is not one of
  whirl, puzzle, 3d and icon; or a field the kind requires is absent, empty or zero; or,
  for whirl and puzzle, one of the two images cannot be fetched; or the request is built
  and the service is unreachable, its status is not 2xx, its body is not JSON or is
  \<^verbatim>\<open>null\<close>, or its payload carries a non-empty \<^verbatim>\<open>errorMsg\<close>. The first three are
  exactly the cases in which no request is built. A 2xx payload without \<^verbatim>\<open>errorMsg\<close>
  is returned as a value, whatever its offset and its error code are.
\<close>

theorem solver_throws_iff:
  "((\<exists>e. fst (solveCaptcha env opts w) = Inl e) \<longleftrightarrow>
      \<not> kind_supported opts \<or> field_unusable opts \<or> image_unfetchable env opts \<or>
      (\<exists>endpoint pl. fst (build_request env opts w) = Inr (endpoint, pl) \<and>
         (claimed_throw_condition (fetch_service env endpoint pl) \<or>
          body_not_object (fetch_service env endpoint pl)))) \<and>
   ((\<exists>e. fst (build_request env opts w) = Inl e) \<longleftrightarrow>
      \<not> kind_supported opts \<or> field_unusable opts \<or> image_unfetchable env opts) \<and>
   (\<forall>endpoint pl status result txt.
      fst (build_request env opts w) = Inr (endpoint, pl) \<and>
      fetch_service env endpoint pl = ServiceReply True status (JsonObject result) txt \<and>
      truthy_string (sol_errorMsg result) = None \<longrightarrow>
      fst (solveCaptcha env opts w) = Inr result)"
proof -
  obtain r w1 where b: "build_request env opts w = (r, w1)"
    by (cases "build_request env opts w")
  note t = build_request_throws_iff [of env opts w]
  show ?thesis
  proof (cases r)
    case (Inl e)
    with b solveCaptcha_not_built [of env opts w e] t show ?thesis by auto
  next
    case (Inr p)
    obtain endpoint pl where p: "p = (endpoint, pl)" by (cases p)
    have s: "solveCaptcha env opts w = post_request env endpoint pl w1"
      using b Inr p by (simp add: solveCaptcha_built)
    have n: "\<not> (\<not> kind_supported opts \<or> field_unusable opts \<or> image_unfetchable env opts)"
      using t b Inr by simp
    show ?thesis
      using b Inr p s n t post_request_throws_iff [of env endpoint pl w1]
        post_request_returns [of env endpoint pl _ _ _ w1]
      by auto
  qed
qed

lemma build_request_whirl:
  assumes "fetch_image env u1 = ImageReply True s1 b1" "fetch_image env u2 = ImageReply True s2 b2"
    and "u1 \<noteq> []" "u2 \<noteq> []"
  shows "build_request env (captcha_options env [u1, u2]) w =
     (Inr (''/whirl'', whirl_payload env b1 b2), w\<lparr>effects := effects w @ [HttpGet u1, HttpGet u2]\<rparr>)"
  using assms
  by (simp add: build_request_def captcha_options_def js_index_def truthy_string_def
      truthy_number_def urlToB64_def bind_def emit_def return_def whirl_payload_def)

lemma sample_images:
  "fetch_image sample_env u = ImageReply True ''OK'' ''aW1hZ2U=''"
  "fetch_image garbled_env u = ImageReply True ''OK'' ''aW1hZ2U=''"
  "fetch_image unsolved_env u = ImageReply True ''OK'' ''aW1hZ2U=''"
  by (simp_all add: sample_env_def garbled_env_def unsolved_env_def)

lemma sample_built:
  "fst (build_request garbled_env (captcha_options garbled_env sample_urls) sample_world) =
     Inr (''/whirl'', whirl_payload garbled_env ''aW1hZ2U='' ''aW1hZ2U='')"
  "fst (build_request unsolved_env (captcha_options unsolved_env sample_urls) sample_world) =
     Inr (''/whirl'', whirl_payload unsolved_env ''aW1hZ2U='' ''aW1hZ2U='')"
  "fst (build_request sample_env (captcha_options sample_env sample_urls) sample_world) =
     Inr (''/whirl'', whirl_payload sample_env ''aW1hZ2U='' ''aW1hZ2U='')"
  unfolding sample_urls_def
  by (simp_all add: build_request_whirl [OF sample_images(2) sample_images(2)]
      build_request_whirl [OF sample_images(3) sample_images(3)]
      build_request_whirl [OF sample_images(1) sample_images(1)])

lemma garbled_reply:
  "fetch_service garbled_env endpoint pl = ServiceReply True 200 Unparseable None"
  by (simp add: garbled_env_def)

lemma unsolved_reply:
  "fetch_service unsolved_env endpoint pl =
     ServiceReply True 200 (JsonObject \<lparr>sol_x = None, sol_error = Some ''1'', sol_errorMsg = None\<rparr>) None"
  by (simp add: unsolved_env_def)

theorem solver_throws_iff_witness:
  "fst (solveCaptcha unsolved_env (captcha_options unsolved_env sample_urls) sample_world) =
     Inr \<lparr>sol_x = None, sol_error = Some ''1'', sol_errorMsg = None\<rparr> \<and>
   (\<exists>e. fst (solveCaptcha garbled_env (captcha_options garbled_env sample_urls) sample_world) = Inl e) \<and>
   field_unusable ((captcha_options sample_env sample_urls)\<lparr>width := Some 0\<rparr>) \<and>
   (\<exists>e. fst (solveCaptcha sample_env ((captcha_options sample_env sample_urls)\<lparr>width := Some 0\<rparr>)
            sample_world) = Inl e) \<and>
   image_unfetchable missing_image_env (captcha_options missing_image_env sample_urls) \<and>
   (\<exists>e. fst (solveCaptcha missing_image_env (captcha_options missing_image_env sample_urls)
            sample_world) = Inl e)"
proof -
  note u = solver_throws_iff [where env = unsolved_env and w = sample_world
      and opts = "captcha_options unsolved_env sample_urls"]
  note g = solver_throws_iff [where env = garbled_env and w = sample_world
      and opts = "captcha_options garbled_env sample_urls"]
  note z = solver_throws_iff [where env = sample_env and w = sample_world
      and opts = "(captcha_options sample_env sample_urls)\<lparr>width := Some 0\<rparr>"]
  note m = solver_throws_iff [where env = missing_image_env and w = sample_world
      and opts = "captcha_options missing_image_env sample_urls"]
  have t: "truthy_string (sol_errorMsg \<lparr>sol_x = None, sol_error = Some ''1'', sol_errorMsg = None\<rparr>) = None"
    by simp
  have a: "fst (solveCaptcha unsolved_env (captcha_options unsolved_env sample_urls) sample_world) =
     Inr \<lparr>sol_x = None, sol_error = Some ''1'', sol_errorMsg = None\<rparr>"
    using u sample_built(2) unsolved_reply t by blast
  have "body_not_object (fetch_service garbled_env ''/whirl'' (whirl_payload garbled_env ''aW1hZ2U='' ''aW1hZ2U=''))"
    by (simp add: body_not_object_def garbled_reply)
  then have b: "\<exists>e. fst (solveCaptcha garbled_env (captcha_options garbled_env sample_urls) sample_world) = Inl e"
    using g sample_built(1) by blast
  have c: "field_unusable ((captcha_options sample_env sample_urls)\<lparr>width := Some 0\<rparr>)"
    by (simp add: field_unusable_def captcha_options_def truthy_number_def)
  have d: "\<exists>e. fst (solveCaptcha sample_env ((captcha_options sample_env sample_urls)\<lparr>width := Some 0\<rparr>)
            sample_world) = Inl e"
    using z c by blast
  have e: "image_unfetchable missing_image_env (captcha_options missing_image_env sample_urls)"
    by (simp add: image_unfetchable_def captcha_options_def js_index_def sample_urls_def
        truthy_string_def fetch_fails_def missing_image_env_def)
  have f: "\<exists>e. fst (solveCaptcha missing_image_env (captcha_options missing_image_env sample_urls)
            sample_world) = Inl e"
    using m e by blast
  show ?thesis using a b c d e f by blast
qed

text \<open>
  Claim C9 as stated fails: a reachable service that answers 200 with a body that is not
  JSON makes \<open>solveCaptcha\<close> throw, and none of the three conditions of the claim holds.
\<close>

theorem malformed_body_throws:
  "fst (solveCaptcha garbled_env (captcha_options garbled_env sample_urls) sample_world) = Inl JsonParseFailed \<and>
   \<not> claimed_throw_condition
       (fetch_service garbled_env ''/whirl'' (whirl_payload garbled_env ''aW1hZ2U='' ''aW1hZ2U=''))"
proof -
  have "solveCaptcha garbled_env (captcha_options garbled_env sample_urls) sample_world =
      post_request garbled_env ''/whirl'' (whirl_payload garbled_env ''aW1hZ2U='' ''aW1hZ2U='')
        (sample_world\<lparr>effects := effects sample_world @
           [HttpGet ''https://p16-a.example/bg.png'', HttpGet ''https://p16-a.example/piece.png'']\<rparr>)"
    unfolding sample_urls_def
    by (rule solveCaptcha_built) (simp add: build_request_whirl [OF sample_images(2) sample_images(2)])
  then show ?thesis
    by (simp add: post_request_def bind_def emit_def throw_def garbled_reply claimed_throw_condition_def)
qed

lemma pointer_kept_refl: "pointer_kept w w"
  by (simp add: pointer_kept_def)

lemma pointer_kept_trans: "pointer_kept w w1 \<Longrightarrow> pointer_kept w1 w2 \<Longrightarrow> pointer_kept w w2"
  by (simp add: pointer_kept_def)

lemma quiet_return: "quiet (return v)"
  by (simp add: quiet_def return_def pointer_kept_refl)

lemma quiet_throw: "quiet (throw e)"
  by (simp add: quiet_def throw_def pointer_kept_refl)

lemma quiet_bind:
  assumes "quiet m" "\<And>v. quiet (f v)"
  shows "quiet (bind m f)"
  unfolding quiet_def
proof
  fix w
  obtain r w1 where m: "m w = (r, w1)" by (cases "m w")
  have k: "pointer_kept w w1" using assms(1) m by (auto simp: quiet_def dest: spec [of _ w])
  show "pointer_kept w (snd (bind m f w))"
  proof (cases r)
    case (Inl e)
    with m k show ?thesis by (simp add: bind_def)
  next
    case (Inr v)
    have "pointer_kept w1 (snd (f v w1))" using assms(2) [of v] by (simp add: quiet_def)
    with k have "pointer_kept w (snd (f v w1))" by (rule pointer_kept_trans)
    with m Inr show ?thesis by (simp add: bind_def)
  qed
qed

lemma quiet_http:
  "quiet (emit (HttpGet url))" "quiet (emit (HttpPost endpoint pl))"
  by (simp_all add: quiet_def emit_def pointer_kept_def moves_append)

lemma quiet_urlToB64: "quiet (urlToB64 env url)"
  unfolding urlToB64_def
  by (intro quiet_bind quiet_http) (simp add: quiet_throw quiet_return split: image_reply.splits)

lemma quiet_post_request: "quiet (post_request env endpoint pl)"
  unfolding post_request_def
  by (intro quiet_bind quiet_http)
    (simp add: quiet_throw quiet_return split: service_reply.splits service_body.splits option.splits)

lemma quiet_build_request: "quiet (build_request env opts)"
  unfolding build_request_def
  by (auto intro!: quiet_bind quiet_urlToB64 quiet_return quiet_throw split: option.splits)

lemma quiet_solveCaptcha: "quiet (solveCaptcha env opts)"
  unfolding solveCaptcha_def
  by (intro quiet_bind quiet_build_request) (simp add: quiet_post_request split: prod.splits)

lemma solveCaptcha_pointer_kept:
  "solveCaptcha env opts w = (r, w1) \<Longrightarrow> pointer_kept w w1"
  using quiet_solveCaptcha [of env opts] by (auto simp: quiet_def dest: spec [of _ w])

lemma solveCaptcha_whirl_ok:
  assumes "fetch_image env u1 = ImageReply True s1 b1" "fetch_image env u2 = ImageReply True s2 b2"
    and "u1 \<noteq> []" "u2 \<noteq> []"
    and "fetch_service env ''/whirl'' (whirl_payload env b1 b2) = ServiceReply True status (JsonObject sol) txt"
    and "truthy_string (sol_errorMsg sol) = None"
  shows "solveCaptcha env (captcha_options env [u1, u2]) w =
     (Inr sol, w\<lparr>effects := effects w @
        [HttpGet u1, HttpGet u2, HttpPost ''/whirl'' (whirl_payload env b1 b2)]\<rparr>)"
  using assms(5,6)
  by (simp add: solveCaptcha_built [OF build_request_whirl [OF assms(1-4)]]
      post_request_def bind_def emit_def return_def)

lemma sample_solved:
  "solveCaptcha sample_env (captcha_options sample_env sample_urls) sample_world =
     (Inr \<lparr>sol_x = Some 142, sol_error = Some ''0'', sol_errorMsg = None\<rparr>,
      sample_world\<lparr>effects := effects sample_world @
        [HttpGet ''https://p16-a.example/bg.png'', HttpGet ''https://p16-a.example/piece.png'',
         HttpPost ''/whirl'' (whirl_payload sample_env ''aW1hZ2U='' ''aW1hZ2U='')]\<rparr>)"
  unfolding sample_urls_def
  by (rule solveCaptcha_whirl_ok [OF sample_images(1) sample_images(1)]) (simp_all add: sample_env_def)

lemma unsolved_solved:
  "solveCaptcha unsolved_env (captcha_options unsolved_env sample_urls) sample_world =
     (Inr \<lparr>sol_x = None, sol_error = Some ''1'', sol_errorMsg = None\<rparr>,
      sample_world\<lparr>effects := effects sample_world @
        [HttpGet ''https://p16-a.example/bg.png'', HttpGet ''https://p16-a.example/piece.png'',
         HttpPost ''/whirl'' (whirl_payload unsolved_env ''aW1hZ2U='' ''aW1hZ2U='')]\<rparr>)"
  unfolding sample_urls_def
  by (rule solveCaptcha_whirl_ok [OF sample_images(3) sample_images(3)]) (simp_all add: unsolved_env_def)


section \<open>Properties of the attempt\<close>

lemma js_includes_sublist: "js_includes s p = sublist p s"
  by (induction s) (auto simp: sublist_Cons_right)

lemma finish_body_outcome:
  "finish_body env a =
     settle (body_outcome (fst (solve_attempt env (captchaUrls a) (page a))))
       (a\<lparr>solving := False, page := snd (solve_attempt env (captchaUrls a) (page a))\<rparr>)"
  by (simp add: finish_body_def body_outcome_def split: prod.splits sum.splits)

lemma responses_ignored:
  "\<not> listening a \<Longrightarrow> foldl (step env) a (map Response us) = a"
  by (induction us) simp_all

lemma responses_buffered:
  "listening a \<Longrightarrow> length (captchaUrls a @ filter is_captcha_url us) < 2 \<Longrightarrow>
   foldl (step env) a (map Response us) = a\<lparr>captchaUrls := captchaUrls a @ filter is_captcha_url us\<rparr>"
proof (induction us arbitrary: a)
  case Nil
  then show ?case by simp
next
  case (Cons u us)
  show ?case
  proof (cases "is_captcha_url u")
    case False
    with Cons show ?thesis by (simp add: responseListener_def)
  next
    case True
    let ?a1 = "a\<lparr>captchaUrls := captchaUrls a @ [u]\<rparr>"
    have s: "step env a (Response u) = ?a1"
      using True Cons.prems by (simp add: responseListener_def Let_def)
    have "foldl (step env) ?a1 (map Response us) =
       ?a1\<lparr>captchaUrls := captchaUrls ?a1 @ filter is_captcha_url us\<rparr>"
      using Cons.prems True by (intro Cons.IH) simp_all
    then show ?thesis using True by (simp only: list.map foldl_Cons s) simp
  qed
qed

lemma responses_paired:
  "listening a \<Longrightarrow> length (captchaUrls a) < 2 \<Longrightarrow>
   2 \<le> length (captchaUrls a @ filter is_captcha_url us) \<Longrightarrow>
   foldl (step env) a (map Response us) =
     a\<lparr>captchaUrls := take 2 (captchaUrls a @ filter is_captcha_url us),
       listening := False, solving := True\<rparr>"
proof (induction us arbitrary: a)
  case Nil
  then show ?case by simp
next
  case (Cons u us)
  show ?case
  proof (cases "is_captcha_url u")
    case False
    with Cons show ?thesis by (simp add: responseListener_def)
  next
    case True
    let ?a1 = "a\<lparr>captchaUrls := captchaUrls a @ [u]\<rparr>"
    show ?thesis
    proof (cases "length (captchaUrls a) = 1")
      case True
      have s: "step env a (Response u) = ?a1\<lparr>listening := False, solving := True\<rparr>"
        using \<open>is_captcha_url u\<close> Cons.prems True by (simp add: responseListener_def Let_def)
      have "foldl (step env) (?a1\<lparr>listening := False, solving := True\<rparr>) (map Response us) =
          ?a1\<lparr>listening := False, solving := True\<rparr>"
        by (rule responses_ignored) simp
      then show ?thesis using \<open>is_captcha_url u\<close> True by (simp only: list.map foldl_Cons s) simp
    next
      case False
      with Cons.prems(2) have "length (captchaUrls a) = 0" by linarith
      then have e: "captchaUrls a = []" by simp
      have s: "step env a (Response u) = ?a1"
        using \<open>is_captcha_url u\<close> Cons.prems e by (simp add: responseListener_def Let_def)
      have "foldl (step env) ?a1 (map Response us) =
         ?a1\<lparr>captchaUrls := take 2 (captchaUrls ?a1 @ filter is_captcha_url us),
           listening := False, solving := True\<rparr>"
        using Cons.prems \<open>is_captcha_url u\<close> e by (intro Cons.IH) simp_all
      then show ?thesis using \<open>is_captcha_url u\<close> by (simp only: list.map foldl_Cons s) simp
    qed
  qed
qed

lemma not_listening_update: "\<not> listening a \<Longrightarrow> a\<lparr>listening := False\<rparr> = a"
  by (cases a) simp

lemma step_idle:
  assumes "\<not> listening a" "\<not> solving a" "settled a \<noteq> None \<or> 2 \<le> length (captchaUrls a)"
  shows "step env a e = a"
proof (cases e)
  case (Response u)
  with assms show ?thesis by simp
next
  case Timeout
  with assms show ?thesis
    by (auto simp: on_timeout_def Let_def settle_def not_listening_update)
next
  case BodyEnds
  with assms show ?thesis by simp
qed

lemma run_idle:
  assumes "\<not> listening a" "\<not> solving a" "settled a \<noteq> None \<or> 2 \<le> length (captchaUrls a)"
  shows "foldl (step env) a evs = a"
  using assms by (induction evs) (simp_all add: step_idle)

lemma settle_fields:
  "captchaUrls (settle out a) = captchaUrls a" "listening (settle out a) = listening a"
  "solving (settle out a) = solving a" "page (settle out a) = page a"
  "settled (settle out a) = (case settled a of None \<Rightarrow> Some out | Some v \<Rightarrow> Some v)"
  by (simp_all add: settle_def split: option.splits)

lemma finish_body_fields:
  "captchaUrls (finish_body env a) = captchaUrls a" "listening (finish_body env a) = listening a"
  "\<not> solving (finish_body env a)"
  "page (finish_body env a) = snd (solve_attempt env (captchaUrls a) (page a))"
  "settled (finish_body env a) =
     (case settled a of None \<Rightarrow> Some (body_outcome (fst (solve_attempt env (captchaUrls a) (page a))))
      | Some v \<Rightarrow> Some v)"
  by (simp_all add: finish_body_outcome settle_fields)

lemma step_pending:
  assumes "\<not> listening a" "length (captchaUrls a) = 2" "e \<noteq> BodyEnds"
  shows "step env a e = a"
  using assms by (cases e) (simp_all add: on_timeout_def Let_def not_listening_update)

lemma run_pending:
  assumes "\<not> listening a" "solving a" "length (captchaUrls a) = 2"
  shows "foldl (step env) a evs = (if BodyEnds \<in> set evs then finish_body env a else a)"
  using assms
proof (induction evs)
  case Nil
  then show ?case by simp
next
  case (Cons e evs)
  show ?case
  proof (cases "e = BodyEnds")
    case True
    have "foldl (step env) (finish_body env a) evs = finish_body env a"
      using Cons.prems by (intro run_idle) (simp_all add: finish_body_fields)
    with True Cons.prems show ?thesis by simp
  next
    case False
    then have "step env a e = a" using Cons.prems by (simp add: step_pending)
    with False Cons show ?thesis by simp
  qed
qed

lemma arm_fields:
  "captchaUrls (arm w) = []" "listening (arm w)" "\<not> solving (arm w)" "settled (arm w) = None"
  "page (arm w) = w"
  by (simp_all add: arm_def)

lemma run_append: "handleSlideCaptcha env (xs @ ys) w = foldl (step env) (handleSlideCaptcha env xs w) ys"
  by (simp add: handleSlideCaptcha_def)

lemma after_responses_few:
  assumes "length (filter is_captcha_url us) < 2"
  shows "handleSlideCaptcha env (map Response us) w = (arm w)\<lparr>captchaUrls := filter is_captcha_url us\<rparr>"
  using responses_buffered [of "arm w" us env] assms
  by (simp add: handleSlideCaptcha_def arm_fields)

lemma after_responses_pair:
  assumes "2 \<le> length (filter is_captcha_url us)"
  shows "handleSlideCaptcha env (map Response us) w =
     (arm w)\<lparr>captchaUrls := take 2 (filter is_captcha_url us), listening := False, solving := True\<rparr>"
  using responses_paired [of "arm w" us env] assms
  by (simp add: handleSlideCaptcha_def arm_fields)

lemma listening_after_responses:
  "listening (handleSlideCaptcha env (map Response us) w) = (length (filter is_captcha_url us) < 2)"
proof (cases "length (filter is_captcha_url us) < 2")
  case True
  then show ?thesis by (simp add: after_responses_few arm_fields)
next
  case False
  then have "2 \<le> length (filter is_captcha_url us)" by simp
  with False show ?thesis by (simp add: after_responses_pair)
qed

lemma after_pair:
  assumes "2 \<le> length (filter is_captcha_url us)"
  shows "handleSlideCaptcha env (map Response us @ evs) w =
     (if BodyEnds \<in> set evs
      then finish_body env (handleSlideCaptcha env (map Response us) w)
      else handleSlideCaptcha env (map Response us) w)"
  unfolding run_append
  by (rule run_pending) (simp_all add: after_responses_pair [OF assms] assms)

lemma responses_of_append: "responses_of (xs @ ys) = responses_of xs @ responses_of ys"
  by (induction xs rule: responses_of.induct) simp_all

lemma responses_of_map: "responses_of (map Response us) = us"
  by (induction us) simp_all

lemma run_snoc: "handleSlideCaptcha env (evs @ [e]) w = step env (handleSlideCaptcha env evs w) e"
  by (simp add: handleSlideCaptcha_def)

lemma prefix_take_append:
  assumes "prefix xs (take n ys)"
  shows "prefix xs (take n (ys @ zs))"
proof -
  from assms obtain r where "take n ys = xs @ r" by (auto simp: prefix_def)
  then have "take n (ys @ zs) = xs @ (r @ take (n - length ys) zs)" by simp
  then show ?thesis by (simp only: prefix_def) blast
qed

lemma buffer_invariant:
  "prefix (captchaUrls (handleSlideCaptcha env evs w)) (take 2 (filter is_captcha_url (responses_of evs))) \<and>
   (listening (handleSlideCaptcha env evs w) \<longrightarrow>
      captchaUrls (handleSlideCaptcha env evs w) = filter is_captcha_url (responses_of evs) \<and>
      length (captchaUrls (handleSlideCaptcha env evs w)) < 2)"
proof (induction evs rule: rev_induct)
  case Nil
  show ?case by (simp add: handleSlideCaptcha_def arm_def)
next
  case (snoc e evs)
  let ?a = "handleSlideCaptcha env evs w"
  let ?m = "filter is_captcha_url (responses_of evs)"
  from snoc have p: "prefix (captchaUrls ?a) (take 2 ?m)"
    and l: "listening ?a \<longrightarrow> captchaUrls ?a = ?m \<and> length (captchaUrls ?a) < 2"
    by blast+
  show ?case
  proof (cases e)
    case Timeout
    then show ?thesis using p
      by (simp add: run_snoc responses_of_append on_timeout_def Let_def settle_def split: option.splits)
  next
    case BodyEnds
    then show ?thesis using p l
      by (auto simp: run_snoc responses_of_append finish_body_fields)
  next
    case (Response u)
    show ?thesis
    proof (cases "listening ?a")
      case False
      have "prefix (captchaUrls ?a) (take 2 (?m @ filter is_captcha_url [u]))"
        using p by (rule prefix_take_append)
      with False Response show ?thesis
        by (simp add: run_snoc responses_of_append)
    next
      case True
      with l have e: "captchaUrls ?a = ?m" "length ?m < 2" by auto
      show ?thesis
      proof (cases "is_captcha_url u")
        case False
        with True Response e show ?thesis
          by (simp add: run_snoc responses_of_append responseListener_def)
      next
        case m: True
        show ?thesis
        proof (cases "length ?m = 1")
          case True
          with \<open>listening ?a\<close> Response e m show ?thesis
            by (simp add: run_snoc responses_of_append responseListener_def Let_def)
        next
          case False
          with e(2) have "length ?m = 0" by linarith
          with \<open>listening ?a\<close> Response e m show ?thesis
            by (simp add: run_snoc responses_of_append responseListener_def Let_def)
        qed
      qed
    qed
  qed
qed

lemma pair_is_first_two:
  assumes "length (captchaUrls (handleSlideCaptcha env evs w)) = 2"
  shows "captchaUrls (handleSlideCaptcha env evs w) = take 2 (filter is_captcha_url (responses_of evs))"
proof -
  let ?c = "captchaUrls (handleSlideCaptcha env evs w)"
  let ?t = "take 2 (filter is_captcha_url (responses_of evs))"
  have p: "prefix ?c ?t" using buffer_invariant by blast
  then obtain r where r: "?t = ?c @ r" by (auto simp: prefix_def)
  have "length ?t \<le> 2" by simp
  with r assms have "length r = 0" by (metis add_le_same_cancel1 le_zero_eq length_append)
  with r show ?thesis by simp
qed

lemma sample_matches:
  "filter is_captcha_url sample_traffic =
     [''https://p16-a.example/bg.png'', ''https://p16-a.example/piece.png'',
      ''https://p16-a.example/third.png'']"
  by (simp add: sample_traffic_def is_captcha_url_def)

lemma sample_pair: "take 2 (filter is_captcha_url sample_traffic) = sample_urls"
  by (simp add: sample_matches sample_urls_def)

text \<open>
  Claim C3, as amended. A response matches when its URL contains the host string
  \<^verbatim>\<open>https://p16\<close> anywhere. When at least two of the responses match, the buffer holds
  the first two matching URLs in arrival order whatever events follow; the solver is asked with the
  first as background and the second as puzzle piece; and the listener is installed
  after a prefix of the responses exactly as long as that prefix holds fewer than two
  matches, so it is removed by the step that handles the second match. Whatever the
  events are and wherever the timer fires among them, a buffer that holds two URLs holds
  the first two matching responses.
\<close>

theorem first_two_matches_paired:
  assumes "filter is_captcha_url us = u1 # u2 # others"
  shows "captchaUrls (handleSlideCaptcha env (map Response us @ evs) w) = [u1, u2] \<and>
         backgroundUrl (captcha_options env (captchaUrls (handleSlideCaptcha env (map Response us @ evs) w))) = Some u1 \<and>
         puzzleUrl (captcha_options env (captchaUrls (handleSlideCaptcha env (map Response us @ evs) w))) = Some u2 \<and>
         \<not> listening (handleSlideCaptcha env (map Response us @ evs) w) \<and>
         (\<forall>n. listening (handleSlideCaptcha env (map Response (take n us)) w) =
                (length (filter is_captcha_url (take n us)) < 2)) \<and>
         page (handleSlideCaptcha env (map Response us @ evs) w) =
           (if BodyEnds \<in> set evs then snd (solve_attempt env [u1, u2] w) else w) \<and>
         (\<forall>evs'. length (captchaUrls (handleSlideCaptcha env evs' w)) = 2 \<longrightarrow>
            captchaUrls (handleSlideCaptcha env evs' w) =
              take 2 (filter is_captcha_url (responses_of evs')))"
proof -
  have two: "2 \<le> length (filter is_captcha_url us)" using assms by simp
  have g: "\<forall>evs'. length (captchaUrls (handleSlideCaptcha env evs' w)) = 2 \<longrightarrow>
            captchaUrls (handleSlideCaptcha env evs' w) =
              take 2 (filter is_captcha_url (responses_of evs'))"
    using pair_is_first_two by blast
  have a: "handleSlideCaptcha env (map Response us) w =
     (arm w)\<lparr>captchaUrls := [u1, u2], listening := False, solving := True\<rparr>"
    by (simp add: after_responses_pair [OF two] assms)
  have l: "\<forall>n. listening (handleSlideCaptcha env (map Response (take n us)) w) =
                (length (filter is_captcha_url (take n us)) < 2)"
    by (simp add: listening_after_responses)
  have h: "captchaUrls (handleSlideCaptcha env (map Response us @ evs) w) = [u1, u2] \<and>
         backgroundUrl (captcha_options env (captchaUrls (handleSlideCaptcha env (map Response us @ evs) w))) = Some u1 \<and>
         puzzleUrl (captcha_options env (captchaUrls (handleSlideCaptcha env (map Response us @ evs) w))) = Some u2 \<and>
         \<not> listening (handleSlideCaptcha env (map Response us @ evs) w) \<and>
         page (handleSlideCaptcha env (map Response us @ evs) w) =
           (if BodyEnds \<in> set evs then snd (solve_attempt env [u1, u2] w) else w)"
    by (simp add: after_pair [OF two] a finish_body_fields arm_fields captcha_options_def js_index_def)
  show ?thesis using h l g by blast
qed

theorem first_two_matches_paired_witness:
  "filter is_captcha_url sample_traffic =
     [''https://p16-a.example/bg.png'', ''https://p16-a.example/piece.png'',
      ''https://p16-a.example/third.png''] \<and>
   captchaUrls (handleSlideCaptcha sample_env
      (map Response sample_traffic @ [Response ''https://p16-a.example/fourth.png'', Timeout]) sample_world) =
     [''https://p16-a.example/bg.png'', ''https://p16-a.example/piece.png''] \<and>
   listening (handleSlideCaptcha sample_env (map Response (take 2 sample_traffic)) sample_world) \<and>
   \<not> listening (handleSlideCaptcha sample_env (map Response (take 3 sample_traffic)) sample_world) \<and>
   captchaUrls (handleSlideCaptcha sample_env
      (map Response sample_traffic @ [Response ''https://p16-a.example/fourth.png'', Timeout]) sample_world) =
     take 2 (filter is_captcha_url (responses_of
      (map Response sample_traffic @ [Response ''https://p16-a.example/fourth.png'', Timeout])))"
proof -
  note t = first_two_matches_paired [OF sample_matches, where env = sample_env and w = sample_world
      and evs = "[Response ''https://p16-a.example/fourth.png'', Timeout]"]
  have a: "captchaUrls (handleSlideCaptcha sample_env
      (map Response sample_traffic @ [Response ''https://p16-a.example/fourth.png'', Timeout]) sample_world) =
     [''https://p16-a.example/bg.png'', ''https://p16-a.example/piece.png'']"
    using t by blast
  have l: "\<forall>n. listening (handleSlideCaptcha sample_env (map Response (take n sample_traffic)) sample_world) =
                (length (filter is_captcha_url (take n sample_traffic)) < 2)"
    using t by blast
  have b: "listening (handleSlideCaptcha sample_env (map Response (take 2 sample_traffic)) sample_world)"
    by (simp only: l) (simp add: sample_traffic_def is_captcha_url_def)
  have c: "\<not> listening (handleSlideCaptcha sample_env (map Response (take 3 sample_traffic)) sample_world)"
    by (simp only: l) (simp add: sample_traffic_def is_captcha_url_def)
  have "length (captchaUrls (handleSlideCaptcha sample_env
      (map Response sample_traffic @ [Response ''https://p16-a.example/fourth.png'', Timeout]) sample_world)) = 2"
    by (simp add: a)
  with t have d: "captchaUrls (handleSlideCaptcha sample_env
      (map Response sample_traffic @ [Response ''https://p16-a.example/fourth.png'', Timeout]) sample_world) =
     take 2 (filter is_captcha_url (responses_of
      (map Response sample_traffic @ [Response ''https://p16-a.example/fourth.png'', Timeout])))"
    by blast
  show ?thesis using sample_matches a b c d by blast
qed

lemma embedded_matches:
  "filter is_captcha_url embedded_first_traffic =
     [embedded_url, ''https://p16-a.example/bg.png'', ''https://p16-a.example/piece.png'']"
  "filter starts_with_hostPrefix embedded_first_traffic =
     [''https://p16-a.example/bg.png'', ''https://p16-a.example/piece.png'']"
  "filter is_captcha_url embedded_second_traffic = [''https://p16-a.example/bg.png'', embedded_url]"
  "filter starts_with_hostPrefix embedded_second_traffic = [''https://p16-a.example/bg.png'']"
  "\<not> starts_with_hostPrefix embedded_url"
  by (simp_all add: embedded_first_traffic_def embedded_second_traffic_def embedded_url_def
      is_captcha_url_def starts_with_hostPrefix_def)

text \<open>
  Claim C3 as stated fails for the test of the specification, which is that the URL
  starts with the host prefix: a response from another host whose URL carries the host
  string in its query is buffered. Here it comes first and is followed by two responses
  that start with the prefix: the pair the solver is asked with is that URL as
  background and the first of the two as piece, not the two.
\<close>

theorem embedded_url_paired:
  "take 2 (filter starts_with_hostPrefix embedded_first_traffic) =
     [''https://p16-a.example/bg.png'', ''https://p16-a.example/piece.png''] \<and>
   \<not> starts_with_hostPrefix embedded_url \<and>
   captchaUrls (handleSlideCaptcha sample_env (map Response embedded_first_traffic) sample_world) =
     [embedded_url, ''https://p16-a.example/bg.png''] \<and>
   backgroundUrl (captcha_options sample_env
     (captchaUrls (handleSlideCaptcha sample_env (map Response embedded_first_traffic) sample_world))) =
     Some embedded_url \<and>
   puzzleUrl (captcha_options sample_env
     (captchaUrls (handleSlideCaptcha sample_env (map Response embedded_first_traffic) sample_world))) =
     Some ''https://p16-a.example/bg.png''"
proof -
  have two: "2 \<le> length (filter is_captcha_url embedded_first_traffic)"
    by (simp add: embedded_matches)
  have c: "captchaUrls (handleSlideCaptcha sample_env (map Response embedded_first_traffic) sample_world) =
     [embedded_url, ''https://p16-a.example/bg.png'']"
    by (simp add: after_responses_pair [OF two] embedded_matches)
  show ?thesis
    by (simp add: c embedded_matches captcha_options_def js_index_def)
qed

text \<open>
  Claim C4, as amended. A response matches when its URL contains the host string
  \<^verbatim>\<open>https://p16\<close> anywhere. When fewer than two matching responses arrive before the
  timer fires, the timer removes the listener and resolves the promise with \<^verbatim>\<open>false\<close>; nothing that
  follows changes that, the page is untouched, and the caller prints that the captcha
  was not detected or not solved and goes on to the login check.
\<close>

theorem timeout_without_pair:
  assumes "length (filter is_captcha_url us) < 2"
  shows "settled (handleSlideCaptcha env (map Response us @ Timeout # evs) w) = Some (Resolved False) \<and>
         \<not> listening (handleSlideCaptcha env (map Response us @ Timeout # evs) w) \<and>
         page (handleSlideCaptcha env (map Response us @ Timeout # evs) w) = w \<and>
         captcha_stage (Resolved False) =
           Inr [ConsoleLog ''Captcha was not detected or not solved, proceeding to check for login success...'']"
proof -
  let ?a = "handleSlideCaptcha env (map Response us) w"
  let ?b = "step env ?a Timeout"
  have b: "settled ?b = Some (Resolved False)" "\<not> listening ?b" "\<not> solving ?b" "page ?b = w"
    using assms by (simp_all add: after_responses_few on_timeout_def Let_def settle_def arm_fields)
  have "handleSlideCaptcha env (map Response us @ Timeout # evs) w = foldl (step env) ?b evs"
    by (simp add: run_append)
  also have "\<dots> = ?b" using b by (intro run_idle) simp_all
  finally show ?thesis using b by (simp add: captcha_stage_def)
qed

theorem timeout_without_pair_witness:
  "length (filter is_captcha_url (take 2 sample_traffic)) < 2 \<and>
   settled (handleSlideCaptcha sample_env
      (map Response (take 2 sample_traffic) @ Timeout # [Response ''https://p16-a.example/piece.png'', BodyEnds])
      sample_world) = Some (Resolved False) \<and>
   page (handleSlideCaptcha sample_env
      (map Response (take 2 sample_traffic) @ Timeout # [Response ''https://p16-a.example/piece.png'', BodyEnds])
      sample_world) = sample_world"
proof -
  have f: "length (filter is_captcha_url (take 2 sample_traffic)) < 2"
    by (simp add: sample_traffic_def is_captcha_url_def)
  from timeout_without_pair [OF f, where env = sample_env and w = sample_world
      and evs = "[Response ''https://p16-a.example/piece.png'', BodyEnds]"] f
  show ?thesis by blast
qed

lemma solve_attempt_valid:
  assumes "bg_box env = Some bg" "solveCaptcha env (captcha_options env urls) w = (Inr sol, w1)"
    and "sol_error sol = Some ''0''" "sol_x sol = Some v" "handle_box env = Some hb"
  shows "solve_attempt env urls w =
     bind (humanLikeDrag env (js_add (box_x hb) (js_div (box_width hb) 2),
                              js_add (box_y hb) (js_div (box_height hb) 2))
                             (js_add (box_x bg) v, js_add (box_y hb) (js_div (box_height hb) 2)))
          (\<lambda>_. verify env) w1"
  using assms by (simp add: solve_attempt_def bind_def Let_def)

lemma solve_attempt_invalid:
  assumes "bg_box env = Some bg" "solveCaptcha env (captcha_options env urls) w = (Inr sol, w1)"
    and "sol_error sol \<noteq> Some ''0'' \<or> sol_x sol = None"
  shows "solve_attempt env urls w = (Inl (InvalidSolution sol), w1)"
  using assms by (auto simp: solve_attempt_def bind_def throw_def)

lemma solve_attempt_True:
  assumes "fst (solve_attempt env urls w) = Inr v"
  shows "v"
  using assms
  by (auto simp: solve_attempt_def bind_def verify_def sleep_def emit_def throw_def return_def Let_def
      split: option.splits prod.splits sum.splits if_splits)

lemma body_outcome_not_False: "body_outcome (fst (solve_attempt env urls w)) \<noteq> Resolved False"
  using solve_attempt_True [of env urls w False]
  by (cases "fst (solve_attempt env urls w)") (auto simp: body_outcome_def)

lemma solve_attempt_drags:
  assumes "bg_box env = Some bg" "solveCaptcha env (captcha_options env urls) w = (Inr sol, w1)"
    and "sol_error sol = Some ''0''" "sol_x sol = Some v" "handle_box env = Some hb"
    and ok: "\<forall>k. mouse_ok env k"
  shows "fst (solve_attempt env urls w) = (if fail_visible env then Inl VerificationFailed else Inr True) \<and>
         pointer (snd (solve_attempt env urls w)) =
           drag_position env
             (js_add (box_x hb) (js_div (box_width hb) 2), js_add (box_y hb) (js_div (box_height hb) 2))
             (js_add (box_x bg) v, js_add (box_y hb) (js_div (box_height hb) 2))
             (drag_steps (rnd env (Suc (draws w)))) (drag_steps (rnd env (Suc (draws w))))
             (rnd env (draws w + 2 + 3 * drag_steps (rnd env (Suc (draws w)))))
             (rnd env (draws w + 3 + 3 * drag_steps (rnd env (Suc (draws w))))) \<and>
         \<not> pressed (snd (solve_attempt env urls w)) \<and>
         mouse_calls (snd (solve_attempt env urls w)) =
           mouse_calls w + drag_steps (rnd env (Suc (draws w))) + 4"
proof -
  let ?start = "(js_add (box_x hb) (js_div (box_width hb) 2), js_add (box_y hb) (js_div (box_height hb) 2))"
  let ?target = "(js_add (box_x bg) v, js_add (box_y hb) (js_div (box_height hb) 2))"
  have k: "mouse_calls w1 = mouse_calls w" "draws w1 = draws w"
    using solveCaptcha_pointer_kept [OF assms(2)] by (simp_all add: pointer_kept_def)
  from humanLikeDrag_ok [OF ok, where w = w1 and start = ?start and end_pt = ?target]
  obtain w2 where w2: "humanLikeDrag env ?start ?target w1 = (Inr (), w2)"
    "\<not> pressed w2"
    "pointer w2 = drag_position env ?start ?target
       (drag_steps (rnd env (Suc (draws w1)))) (drag_steps (rnd env (Suc (draws w1))))
       (rnd env (draws w1 + 2 + 3 * drag_steps (rnd env (Suc (draws w1)))))
       (rnd env (draws w1 + 3 + 3 * drag_steps (rnd env (Suc (draws w1)))))"
    "mouse_calls w2 = mouse_calls w1 + drag_steps (rnd env (Suc (draws w1))) + 4"
    by blast
  have "solve_attempt env urls w = verify env w2"
    by (simp add: solve_attempt_valid [OF assms(1-5)] bind_def w2(1))
  then show ?thesis
    using w2(2-) k by (simp add: verify_def bind_def sleep_def emit_def throw_def return_def)
qed

lemma sample_solved_pair:
  assumes "u1 \<noteq> []" "u2 \<noteq> []"
  shows "solveCaptcha sample_env (captcha_options sample_env [u1, u2]) sample_world =
     (Inr \<lparr>sol_x = Some 142, sol_error = Some ''0'', sol_errorMsg = None\<rparr>,
      sample_world\<lparr>effects := effects sample_world @
        [HttpGet u1, HttpGet u2, HttpPost ''/whirl'' (whirl_payload sample_env ''aW1hZ2U='' ''aW1hZ2U='')]\<rparr>)"
  by (rule solveCaptcha_whirl_ok [OF sample_images(1) sample_images(1) assms]) (simp_all add: sample_env_def)

lemma sample_boxes:
  "bg_box sample_env = Some \<lparr>box_x = 300, box_y = 650, box_width = 348, box_height = 217\<rparr>"
  "handle_box sample_env = Some \<lparr>box_x = 500, box_y = 700, box_width = 40, box_height = 40\<rparr>"
  by (simp_all add: sample_env_def)

lemma sample_attempt_pair:
  assumes "u1 \<noteq> []" "u2 \<noteq> []"
  shows "fst (solve_attempt sample_env [u1, u2] sample_world) = Inr True"
    "mouse_calls (snd (solve_attempt sample_env [u1, u2] sample_world)) = 49"
    "pointer (snd (solve_attempt sample_env [u1, u2] sample_world)) = (442, 720)"
proof -
  have "sol_error \<lparr>sol_x = Some 142, sol_error = Some ''0'', sol_errorMsg = None\<rparr> = Some ''0''"
    "sol_x \<lparr>sol_x = Some 142, sol_error = Some ''0'', sol_errorMsg = None\<rparr> = Some 142"
    by simp_all
  note d = solve_attempt_drags [OF sample_boxes(1) sample_solved_pair [OF assms] this sample_boxes(2) sample_ok]
  show "fst (solve_attempt sample_env [u1, u2] sample_world) = Inr True"
    using d by (simp add: sample_env_def)
  show "mouse_calls (snd (solve_attempt sample_env [u1, u2] sample_world)) = 49"
    using d by (simp add: sample_steps) (simp add: sample_world_def)
  have "pointer (snd (solve_attempt sample_env [u1, u2] sample_world)) =
      drag_position sample_env (520, 720) (442, 720) 45 45 (1 / 4) (1 / 4)"
    using d by (simp add: quarter_steps sample_draw js_add_def js_div_def)
  also have "\<dots> = (442, 720)"
  proof -
    have p: "0 < (45::nat)" by simp
    show ?thesis
      by (simp only: drag_position_last [OF p] fst_conv snd_conv sample_jitter_last sample_arith
          sample_absorb)
  qed
  finally show "pointer (snd (solve_attempt sample_env [u1, u2] sample_world)) = (442, 720)" .
qed

lemma sample_attempt:
  "fst (solve_attempt sample_env sample_urls sample_world) = Inr True"
  "mouse_calls (snd (solve_attempt sample_env sample_urls sample_world)) = 49"
  "pointer (snd (solve_attempt sample_env sample_urls sample_world)) = (442, 720)"
  unfolding sample_urls_def by (rule sample_attempt_pair; simp)+

text \<open>
  Claim C4 as stated fails for the test of the specification, which is that the URL
  starts with the host prefix: with one response that starts with the prefix and one from
  another host whose URL carries the host string in its query, fewer than two responses
  match in the sense of the specification, yet the timer does not resolve the promise:
  the solve is under way when it fires, and the promise is resolved with \<^verbatim>\<open>true\<close> when
  the body ends.
\<close>

theorem embedded_url_not_timed_out:
  "length (filter starts_with_hostPrefix embedded_second_traffic) < 2 \<and>
   settled (handleSlideCaptcha sample_env (map Response embedded_second_traffic @ [Timeout]) sample_world) =
     None \<and>
   solving (handleSlideCaptcha sample_env (map Response embedded_second_traffic @ [Timeout]) sample_world) \<and>
   settled (handleSlideCaptcha sample_env (map Response embedded_second_traffic @ [Timeout, BodyEnds])
      sample_world) = Some (Resolved True)"
proof -
  have two: "2 \<le> length (filter is_captcha_url embedded_second_traffic)"
    by (simp add: embedded_matches)
  have f: "length (filter starts_with_hostPrefix embedded_second_traffic) < 2"
    by (simp add: embedded_matches)
  have a: "settled (handleSlideCaptcha sample_env (map Response embedded_second_traffic @ [Timeout]) sample_world) =
     None"
    "solving (handleSlideCaptcha sample_env (map Response embedded_second_traffic @ [Timeout]) sample_world)"
    by (simp_all add: after_pair [OF two] after_responses_pair [OF two] arm_fields)
  have n: "''https://p16-a.example/bg.png'' \<noteq> []" "embedded_url \<noteq> []"
    by (simp_all add: embedded_url_def)
  have b: "settled (handleSlideCaptcha sample_env (map Response embedded_second_traffic @ [Timeout, BodyEnds])
      sample_world) = Some (Resolved True)"
    by (simp add: after_pair [OF two] after_responses_pair [OF two] finish_body_fields arm_fields
        embedded_matches sample_attempt_pair(1) [OF n] body_outcome_def)
  show ?thesis using f a b by blast
qed

text \<open>
  Claim C10. Once two matching responses have arrived, the promise is pending until the
  body of the listener ends and is then settled by what \<open>solve_attempt\<close> returned or
  threw; it is never resolved with \<^verbatim>\<open>false\<close>, and the timer leaves the attempt as it
  is whenever it fires.
\<close>

theorem timer_cannot_settle_after_pair:
  assumes "2 \<le> length (filter is_captcha_url us)"
  shows "settled (handleSlideCaptcha env (map Response us @ evs) w) =
           (if BodyEnds \<in> set evs
            then Some (body_outcome (fst (solve_attempt env (take 2 (filter is_captcha_url us)) w)))
            else None) \<and>
         settled (handleSlideCaptcha env (map Response us @ evs) w) \<noteq> Some (Resolved False) \<and>
         step env (handleSlideCaptcha env (map Response us @ evs) w) Timeout =
           handleSlideCaptcha env (map Response us @ evs) w"
proof -
  let ?a = "handleSlideCaptcha env (map Response us @ evs) w"
  have s: "settled ?a =
           (if BodyEnds \<in> set evs
            then Some (body_outcome (fst (solve_attempt env (take 2 (filter is_captcha_url us)) w)))
            else None)"
    by (simp add: after_pair [OF assms] after_responses_pair [OF assms] finish_body_fields arm_fields)
  have n: "settled ?a \<noteq> Some (Resolved False)"
    by (simp add: s body_outcome_not_False)
  have f: "\<not> listening ?a" "length (captchaUrls ?a) = 2"
    using assms
    by (simp_all add: after_pair [OF assms] after_responses_pair [OF assms] finish_body_fields arm_fields)
  have t: "step env ?a Timeout = ?a"
    using f by (intro step_pending) simp_all
  show ?thesis using s n t by blast
qed

theorem timer_cannot_settle_after_pair_witness:
  "2 \<le> length (filter is_captcha_url sample_traffic) \<and>
   settled (handleSlideCaptcha sample_env (map Response sample_traffic @ [Timeout]) sample_world) = None \<and>
   settled (handleSlideCaptcha sample_env (map Response sample_traffic @ [Timeout, BodyEnds]) sample_world) =
     Some (Resolved True)"
proof -
  have two: "2 \<le> length (filter is_captcha_url sample_traffic)"
    by (simp add: sample_matches)
  note a = timer_cannot_settle_after_pair [OF two, where env = sample_env and w = sample_world
      and evs = "[Timeout]"]
  note b = timer_cannot_settle_after_pair [OF two, where env = sample_env and w = sample_world
      and evs = "[Timeout, BodyEnds]"]
  have x: "settled (handleSlideCaptcha sample_env (map Response sample_traffic @ [Timeout]) sample_world) = None"
    using a by simp
  have y: "settled (handleSlideCaptcha sample_env (map Response sample_traffic @ [Timeout, BodyEnds]) sample_world) =
     Some (Resolved True)"
    using b by (simp add: sample_pair sample_attempt body_outcome_def)
  show ?thesis using two x y by blast
qed

text \<open>
  Claim C1. When the solver's result has the error code 0 (as a string) and an offset
  \<open>v\<close>, the listener drags from the centre of the handle to the point whose horizontal
  coordinate is the left edge of the background box plus \<open>v\<close>, at the height of the
  handle's centre. The sum is the sum of the code, rounded to a double: it is the exact
  sum whenever that is a double, as it is for pixel coordinates. When no pointer
  primitive fails, the pointer ends at the last position of the path to that point.
\<close>

theorem drag_target_from_background:
  assumes "bg_box env = Some bg" "solveCaptcha env (captcha_options env urls) w = (Inr sol, w1)"
    and "sol_error sol = Some ''0''" "sol_x sol = Some v" "handle_box env = Some hb"
  shows "solve_attempt env urls w =
           bind (humanLikeDrag env (js_add (box_x hb) (js_div (box_width hb) 2),
                                    js_add (box_y hb) (js_div (box_height hb) 2))
                                   (js_add (box_x bg) v, js_add (box_y hb) (js_div (box_height hb) 2)))
                (\<lambda>_. verify env) w1 \<and>
         js_add (box_x bg) v = double (box_x bg + v) \<and>
         (is_double (box_x bg + v) \<longrightarrow> js_add (box_x bg) v = box_x bg + v) \<and>
         ((\<forall>k. mouse_ok env k) \<longrightarrow>
            pointer (snd (solve_attempt env urls w)) =
              drag_position env
                (js_add (box_x hb) (js_div (box_width hb) 2), js_add (box_y hb) (js_div (box_height hb) 2))
                (js_add (box_x bg) v, js_add (box_y hb) (js_div (box_height hb) 2))
                (drag_steps (rnd env (Suc (draws w)))) (drag_steps (rnd env (Suc (draws w))))
                (rnd env (draws w + 2 + 3 * drag_steps (rnd env (Suc (draws w)))))
                (rnd env (draws w + 3 + 3 * drag_steps (rnd env (Suc (draws w))))))"
proof (intro conjI impI)
  show "solve_attempt env urls w =
           bind (humanLikeDrag env (js_add (box_x hb) (js_div (box_width hb) 2),
                                    js_add (box_y hb) (js_div (box_height hb) 2))
                                   (js_add (box_x bg) v, js_add (box_y hb) (js_div (box_height hb) 2)))
                (\<lambda>_. verify env) w1"
    by (rule solve_attempt_valid [OF assms])
next
  show "js_add (box_x bg) v = double (box_x bg + v)" by (simp add: js_add_def)
next
  assume "is_double (box_x bg + v)"
  then show "js_add (box_x bg) v = box_x bg + v" by (simp add: js_add_def is_double_def)
next
  assume "\<forall>k. mouse_ok env k"
  from solve_attempt_drags [OF assms this]
  show "pointer (snd (solve_attempt env urls w)) =
              drag_position env
                (js_add (box_x hb) (js_div (box_width hb) 2), js_add (box_y hb) (js_div (box_height hb) 2))
                (js_add (box_x bg) v, js_add (box_y hb) (js_div (box_height hb) 2))
                (drag_steps (rnd env (Suc (draws w)))) (drag_steps (rnd env (Suc (draws w))))
                (rnd env (draws w + 2 + 3 * drag_steps (rnd env (Suc (draws w)))))
                (rnd env (draws w + 3 + 3 * drag_steps (rnd env (Suc (draws w)))))"
    by blast
qed

theorem drag_target_from_background_witness:
  "js_add 300 142 = 300 + 142 \<and> is_double (300 + 142) \<and> (\<forall>k. mouse_ok sample_env k) \<and>
   solve_attempt sample_env sample_urls sample_world =
     bind (humanLikeDrag sample_env (520, 720) (300 + 142, 720)) (\<lambda>_. verify sample_env)
       (sample_world\<lparr>effects := effects sample_world @
          [HttpGet ''https://p16-a.example/bg.png'', HttpGet ''https://p16-a.example/piece.png'',
           HttpPost ''/whirl'' (whirl_payload sample_env ''aW1hZ2U='' ''aW1hZ2U='')]\<rparr>) \<and>
   fst (pointer (snd (solve_attempt sample_env sample_urls sample_world))) = 300 + 142"
proof -
  have "sol_error \<lparr>sol_x = Some 142, sol_error = Some ''0'', sol_errorMsg = None\<rparr> = Some ''0''"
    "sol_x \<lparr>sol_x = Some 142, sol_error = Some ''0'', sol_errorMsg = None\<rparr> = Some 142"
    by simp_all
  note t = drag_target_from_background [OF sample_boxes(1) sample_solved this sample_boxes(2)]
  have d: "is_double (300 + 142)" by (simp add: is_double_def)
  have "is_double (box_x \<lparr>box_x = 300, box_y = 650, box_width = 348, box_height = 217\<rparr> + 142)"
    using d by simp
  with t have "js_add (box_x \<lparr>box_x = 300, box_y = 650, box_width = 348, box_height = 217\<rparr>) 142 =
      box_x \<lparr>box_x = 300, box_y = 650, box_width = 348, box_height = 217\<rparr> + 142"
    by blast
  then have a: "js_add 300 142 = 300 + 142" by simp
  have s: "js_add 500 (js_div 40 2) = 520" "js_add 700 (js_div 40 2) = 720"
    by (simp_all add: js_add_def js_div_def)
  have b: "solve_attempt sample_env sample_urls sample_world =
     bind (humanLikeDrag sample_env (520, 720) (300 + 142, 720)) (\<lambda>_. verify sample_env)
       (sample_world\<lparr>effects := effects sample_world @
          [HttpGet ''https://p16-a.example/bg.png'', HttpGet ''https://p16-a.example/piece.png'',
           HttpPost ''/whirl'' (whirl_payload sample_env ''aW1hZ2U='' ''aW1hZ2U='')]\<rparr>)"
    using t [THEN conjunct1] by (simp only: box.simps s a)
  have "pointer (snd (solve_attempt sample_env sample_urls sample_world)) =
      drag_position sample_env (520, 720) (442, 720) 45 45 (1 / 4) (1 / 4)"
    using t [THEN conjunct2, THEN conjunct2, THEN conjunct2] sample_ok
    by (simp add: quarter_steps sample_draw js_add_def js_div_def)
  also have "\<dots> = (442, 720)"
  proof -
    have p: "0 < (45::nat)" by simp
    show ?thesis
      by (simp only: drag_position_last [OF p] fst_conv snd_conv sample_jitter_last sample_arith
          sample_absorb)
  qed
  finally have c: "fst (pointer (snd (solve_attempt sample_env sample_urls sample_world))) = 300 + 142"
    by simp
  show ?thesis using a d sample_ok b c by blast
qed

text \<open>
  Claim C2. When the solver's result has an error code other than 0 (as a string) or no
  offset, the listener throws the invalid-solution error without having touched the
  pointer, and an attempt whose body ends is settled as rejected with that error.
  Conversely, a pointer primitive is issued only when the solver returned a result with
  error code 0 and an offset.
\<close>

theorem invalid_solution_never_drags:
  "(\<forall>bg sol w1.
      bg_box env = Some bg \<and> solveCaptcha env (captcha_options env urls) w = (Inr sol, w1) \<and>
      (sol_error sol \<noteq> Some ''0'' \<or> sol_x sol = None) \<longrightarrow>
      solve_attempt env urls w = (Inl (InvalidSolution sol), w1) \<and> pointer_kept w w1 \<and>
      (\<forall>us evs. take 2 (filter is_captcha_url us) = urls \<and> 2 \<le> length (filter is_captcha_url us) \<and>
          BodyEnds \<in> set evs \<longrightarrow>
          settled (handleSlideCaptcha env (map Response us @ evs) w) =
            Some (Rejected (InvalidSolution sol)) \<and>
          page (handleSlideCaptcha env (map Response us @ evs) w) = w1)) \<and>
   (mouse_calls (snd (solve_attempt env urls w)) \<noteq> mouse_calls w \<longrightarrow>
      (\<exists>sol. fst (solveCaptcha env (captcha_options env urls) w) = Inr sol \<and>
             sol_error sol = Some ''0'' \<and> sol_x sol \<noteq> None))"
proof (intro conjI allI impI)
  fix bg sol w1
  assume a: "bg_box env = Some bg \<and> solveCaptcha env (captcha_options env urls) w = (Inr sol, w1) \<and>
      (sol_error sol \<noteq> Some ''0'' \<or> sol_x sol = None)"
  then have s: "solve_attempt env urls w = (Inl (InvalidSolution sol), w1)"
    using solve_attempt_invalid [of env bg urls w sol w1] by blast
  show "solve_attempt env urls w = (Inl (InvalidSolution sol), w1)" by (rule s)
  show "pointer_kept w w1" using a solveCaptcha_pointer_kept by blast
  fix us evs
  assume b: "take 2 (filter is_captcha_url us) = urls \<and> 2 \<le> length (filter is_captcha_url us) \<and>
          BodyEnds \<in> set evs"
  then have two: "2 \<le> length (filter is_captcha_url us)" by simp
  show "settled (handleSlideCaptcha env (map Response us @ evs) w) =
            Some (Rejected (InvalidSolution sol))"
    using b s
    by (simp add: after_pair [OF two] after_responses_pair [OF two] finish_body_fields arm_fields
        body_outcome_def)
  show "page (handleSlideCaptcha env (map Response us @ evs) w) = w1"
    using b s
    by (simp add: after_pair [OF two] after_responses_pair [OF two] finish_body_fields arm_fields)
next
  assume m: "mouse_calls (snd (solve_attempt env urls w)) \<noteq> mouse_calls w"
  obtain r w1 where sc: "solveCaptcha env (captcha_options env urls) w = (r, w1)"
    by (cases "solveCaptcha env (captcha_options env urls) w")
  have k: "mouse_calls w1 = mouse_calls w"
    using solveCaptcha_pointer_kept [OF sc] by (simp add: pointer_kept_def)
  show "\<exists>sol. fst (solveCaptcha env (captcha_options env urls) w) = Inr sol \<and>
             sol_error sol = Some ''0'' \<and> sol_x sol \<noteq> None"
  proof (rule ccontr)
    assume n: "\<not> (\<exists>sol. fst (solveCaptcha env (captcha_options env urls) w) = Inr sol \<and>
             sol_error sol = Some ''0'' \<and> sol_x sol \<noteq> None)"
    have "mouse_calls (snd (solve_attempt env urls w)) = mouse_calls w"
    proof (cases "bg_box env")
      case None
      then show ?thesis by (simp add: solve_attempt_def throw_def)
    next
      case (Some bg)
      show ?thesis
      proof (cases r)
        case (Inl e)
        with Some sc k show ?thesis by (simp add: solve_attempt_def bind_def)
      next
        case (Inr sol)
        with n sc have "sol_error sol \<noteq> Some ''0'' \<or> sol_x sol = None" by simp
        with Some sc Inr k show ?thesis by (simp add: solve_attempt_invalid)
      qed
    qed
    with m show False by simp
  qed
qed

theorem invalid_solution_never_drags_witness:
  "solve_attempt unsolved_env sample_urls sample_world =
     (Inl (InvalidSolution \<lparr>sol_x = None, sol_error = Some ''1'', sol_errorMsg = None\<rparr>),
      sample_world\<lparr>effects :=
        [HttpGet ''https://p16-a.example/bg.png'', HttpGet ''https://p16-a.example/piece.png'',
         HttpPost ''/whirl'' (whirl_payload unsolved_env ''aW1hZ2U='' ''aW1hZ2U='')]\<rparr>) \<and>
   settled (handleSlideCaptcha unsolved_env (map Response sample_traffic @ [Timeout, BodyEnds]) sample_world) =
     Some (Rejected (InvalidSolution \<lparr>sol_x = None, sol_error = Some ''1'', sol_errorMsg = None\<rparr>)) \<and>
   mouse_calls (snd (solve_attempt sample_env sample_urls sample_world)) \<noteq> mouse_calls sample_world \<and>
   (\<exists>sol. fst (solveCaptcha sample_env (captcha_options sample_env sample_urls) sample_world) = Inr sol \<and>
          sol_error sol = Some ''0'' \<and> sol_x sol \<noteq> None)"
proof -
  note u = invalid_solution_never_drags [where env = unsolved_env and urls = sample_urls and w = sample_world]
  note s = invalid_solution_never_drags [where env = sample_env and urls = sample_urls and w = sample_world]
  have bg: "bg_box unsolved_env = Some \<lparr>box_x = 300, box_y = 650, box_width = 348, box_height = 217\<rparr>"
    by (simp add: unsolved_env_def sample_env_def)
  have inv: "sol_error \<lparr>sol_x = None, sol_error = Some ''1'', sol_errorMsg = None\<rparr> \<noteq> Some ''0'' \<or>
     sol_x \<lparr>sol_x = None, sol_error = Some ''1'', sol_errorMsg = None\<rparr> = None"
    by simp
  from u [THEN conjunct1, rule_format, OF conjI [OF bg conjI [OF unsolved_solved inv]]]
  have a: "solve_attempt unsolved_env sample_urls sample_world =
     (Inl (InvalidSolution \<lparr>sol_x = None, sol_error = Some ''1'', sol_errorMsg = None\<rparr>),
      sample_world\<lparr>effects := effects sample_world @
        [HttpGet ''https://p16-a.example/bg.png'', HttpGet ''https://p16-a.example/piece.png'',
         HttpPost ''/whirl'' (whirl_payload unsolved_env ''aW1hZ2U='' ''aW1hZ2U='')]\<rparr>)"
    and b: "\<forall>us evs. take 2 (filter is_captcha_url us) = sample_urls \<and> 2 \<le> length (filter is_captcha_url us) \<and>
          BodyEnds \<in> set evs \<longrightarrow>
          settled (handleSlideCaptcha unsolved_env (map Response us @ evs) sample_world) =
            Some (Rejected (InvalidSolution \<lparr>sol_x = None, sol_error = Some ''1'', sol_errorMsg = None\<rparr>)) \<and>
          page (handleSlideCaptcha unsolved_env (map Response us @ evs) sample_world) =
            sample_world\<lparr>effects := effects sample_world @
        [HttpGet ''https://p16-a.example/bg.png'', HttpGet ''https://p16-a.example/piece.png'',
         HttpPost ''/whirl'' (whirl_payload unsolved_env ''aW1hZ2U='' ''aW1hZ2U='')]\<rparr>"
    by blast+
  have c: "settled (handleSlideCaptcha unsolved_env (map Response sample_traffic @ [Timeout, BodyEnds]) sample_world) =
     Some (Rejected (InvalidSolution \<lparr>sol_x = None, sol_error = Some ''1'', sol_errorMsg = None\<rparr>))"
    using b [rule_format, of sample_traffic "[Timeout, BodyEnds]"] sample_pair
    by (simp add: sample_matches)
  have m: "mouse_calls (snd (solve_attempt sample_env sample_urls sample_world)) \<noteq> mouse_calls sample_world"
    by (simp add: sample_attempt) (simp add: sample_world_def)
  from s [THEN conjunct2, rule_format, OF m]
  have d: "\<exists>sol. fst (solveCaptcha sample_env (captcha_options sample_env sample_urls) sample_world) = Inr sol \<and>
          sol_error sol = Some ''0'' \<and> sol_x sol \<noteq> None" .
  have e: "effects sample_world = []" by (simp add: sample_world_def)
  show ?thesis using a c m d by (simp add: e)
qed


end
